theory Spec2Isabelle
  imports Main "HOL-Library.AList" "HOL-Library.Sublist"
begin

section \<open>Strings and POSIX path names\<close>

text \<open>
  The orchestrator of \<^verbatim>\<open>lib/scripts/iob_core.py\<close> works on path names that are Python
  strings and hands them to \<^verbatim>\<open>os\<close>, \<^verbatim>\<open>os.path\<close> and \<^verbatim>\<open>shutil\<close>. Path names stay strings
  here. The file system interprets a string as the list of its components, relative to
  the working directory, the way \<^verbatim>\<open>os.path.abspath\<close> does (lexically; the model has
  regular files and directories, no symbolic links).
\<close>

type_synonym path = "string list"

text \<open>\<^verbatim>\<open>s.split(sep)\<close> for a one-character separator: never the empty list.\<close>

fun split_on :: "char \<Rightarrow> string \<Rightarrow> string list" where
  "split_on sep [] = [[]]"
| "split_on sep (c # cs) =
     (if c = sep then [] # split_on sep cs
      else (case split_on sep cs of
              [] \<Rightarrow> [[c]]
            | x # xs \<Rightarrow> (c # x) # xs))"

text \<open>\<^verbatim>\<open>sep.join(xs)\<close>.\<close>

fun join_sep :: "string \<Rightarrow> string list \<Rightarrow> string" where
  "join_sep sep [] = []"
| "join_sep sep [x] = x"
| "join_sep sep (x # y # ys) = x @ sep @ join_sep sep (y # ys)"

definition startswith :: "string \<Rightarrow> string \<Rightarrow> bool" where
  "startswith s p = (take (length p) s = p)"

definition endswith :: "string \<Rightarrow> string \<Rightarrow> bool" where
  "endswith s p = (drop (length s - length p) s = p \<and> length p \<le> length s)"

text \<open>\<^verbatim>\<open>posixpath.join(a, b)\<close>; the call with three arguments is the two-argument call
  applied twice.\<close>

definition os_path_join :: "string \<Rightarrow> string \<Rightarrow> string" where
  "os_path_join a b =
     (if startswith b ''/'' then b
      else if a = [] \<or> endswith a ''/'' then a @ b
      else a @ ''/'' @ b)"

text \<open>One component of \<^verbatim>\<open>posixpath.normpath\<close> on an absolute path: empty components and
  \<^verbatim>\<open>.\<close> are dropped, \<^verbatim>\<open>..\<close> removes the last component (and stays at the root).\<close>

definition normpath_step :: "path \<Rightarrow> string \<Rightarrow> path" where
  "normpath_step acc c =
     (if c = [] \<or> c = ''.'' then acc
      else if c = ''..'' then butlast acc
      else acc @ [c])"

text \<open>\<^verbatim>\<open>posixpath.abspath(p)\<close> in working directory \<open>cw\<close>, as the list of the components of
  the result.\<close>

definition abspath :: "path \<Rightarrow> string \<Rightarrow> path" where
  "abspath cw p =
     foldl normpath_step (if startswith p ''/'' then [] else cw) (split_on CHR ''/'' p)"

text \<open>\<^verbatim>\<open>posixpath.relpath(p, start)\<close>: the body on the two component lists, then the
  function itself.\<close>

definition rel_of_lists :: "path \<Rightarrow> path \<Rightarrow> string" where
  "rel_of_lists start_list path_list =
     (let i = length (longest_common_prefix start_list path_list);
          rel_list = replicate (length start_list - i) ''..'' @ drop i path_list
      in if rel_list = [] then ''.'' else join_sep ''/'' rel_list)"

definition os_path_relpath :: "path \<Rightarrow> string \<Rightarrow> string \<Rightarrow> string" where
  "os_path_relpath cw p start = rel_of_lists (abspath cw start) (abspath cw p)"

section \<open>The file system\<close>

text \<open>
  A directory lists its entries in the order in which \<^verbatim>\<open>os.scandir\<close> enumerates them.
\<close>

datatype fsnode = File string | Dir "(string \<times> fsnode) list"

datatype entry = RegularFile string | Directory

datatype py_exception =
    Exception string
  | AssertionError string
  | FileNotFoundError
  | FileExistsError
  | NotADirectoryError
  | IsADirectoryError
  | SameFileError

record world =
  fs :: fsnode
  cwd :: path
  stdout :: "string list"

fun lookup :: "fsnode \<Rightarrow> path \<Rightarrow> fsnode option" where
  "lookup n [] = Some n"
| "lookup (File c) (x # xs) = None"
| "lookup (Dir es) (x # xs) =
     (case map_of es x of None \<Rightarrow> None | Some ch \<Rightarrow> lookup ch xs)"

fun kind :: "fsnode \<Rightarrow> entry" where
  "kind (File c) = RegularFile c"
| "kind (Dir es) = Directory"

definition stat :: "fsnode \<Rightarrow> path \<Rightarrow> entry option" where
  "stat n p = map_option kind (lookup n p)"

definition is_file :: "fsnode \<Rightarrow> path \<Rightarrow> bool" where
  "is_file n p = (case lookup n p of Some (File c) \<Rightarrow> True | _ \<Rightarrow> False)"

definition is_dir :: "fsnode \<Rightarrow> path \<Rightarrow> bool" where
  "is_dir n p = (case lookup n p of Some (Dir es) \<Rightarrow> True | _ \<Rightarrow> False)"

text \<open>A name that a directory entry can carry.\<close>

definition valid_name :: "string \<Rightarrow> bool" where
  "valid_name n = (n \<noteq> [] \<and> CHR ''/'' \<notin> set n \<and> n \<noteq> ''.'' \<and> n \<noteq> ''..'')"

text \<open>Well-formed trees: entry names are valid and no directory lists a name twice.\<close>

fun wf_node :: "fsnode \<Rightarrow> bool"
  and wf_entries :: "(string \<times> fsnode) list \<Rightarrow> bool" where
  "wf_node (File c) = True"
| "wf_node (Dir es) = (distinct (map fst es) \<and> wf_entries es)"
| "wf_entries [] = True"
| "wf_entries (e # es) = (valid_name (fst e) \<and> wf_node (snd e) \<and> wf_entries es)"

fun dirnames :: "(string \<times> fsnode) list \<Rightarrow> string list" where
  "dirnames [] = []"
| "dirnames ((n, File c) # es) = dirnames es"
| "dirnames ((n, Dir ds) # es) = n # dirnames es"

fun filenames :: "(string \<times> fsnode) list \<Rightarrow> string list" where
  "filenames [] = []"
| "filenames ((n, File c) # es) = n # filenames es"
| "filenames ((n, Dir ds) # es) = filenames es"

text \<open>
  \<^verbatim>\<open>os.walk(top)\<close>, top-down: the triple of a directory, then the walks of its
  sub-directories in enumeration order. A \<open>top\<close> that is not a directory yields nothing
  (the \<^verbatim>\<open>scandir\<close> error is ignored).
\<close>

fun walk_node :: "string \<Rightarrow> fsnode \<Rightarrow> (string \<times> string list \<times> string list) list"
  and walk_entries :: "string \<Rightarrow> (string \<times> fsnode) list \<Rightarrow> (string \<times> string list \<times> string list) list" where
  "walk_node root (File c) = []"
| "walk_node root (Dir es) = (root, dirnames es, filenames es) # walk_entries root es"
| "walk_entries root [] = []"
| "walk_entries root (e # es) =
     (case snd e of
        File c \<Rightarrow> walk_entries root es
      | Dir ds \<Rightarrow> walk_node (os_path_join root (fst e)) (snd e) @ walk_entries root es)"

definition os_walk :: "world \<Rightarrow> string \<Rightarrow> (string \<times> string list \<times> string list) list" where
  "os_walk w tp =
     (case lookup (fs w) (abspath (cwd w) tp) of
        None \<Rightarrow> []
      | Some n \<Rightarrow> walk_node tp n)"

text \<open>\<^verbatim>\<open>os.remove(p)\<close>: unlinks a regular file.\<close>

fun remove_node :: "fsnode \<Rightarrow> path \<Rightarrow> py_exception + fsnode" where
  "remove_node n [] = Inl IsADirectoryError"
| "remove_node (File c) (x # xs) = Inl NotADirectoryError"
| "remove_node (Dir es) (x # xs) =
     (case map_of es x of
        None \<Rightarrow> Inl FileNotFoundError
      | Some ch \<Rightarrow>
          (if xs = [] then
             (case ch of
                File c \<Rightarrow> Inr (Dir (AList.delete x es))
              | Dir ds \<Rightarrow> Inl IsADirectoryError)
           else
             (case remove_node ch xs of
                Inl e \<Rightarrow> Inl e
              | Inr ch' \<Rightarrow> Inr (Dir (AList.update x ch' es)))))"

definition os_remove :: "string \<Rightarrow> world \<Rightarrow> py_exception + world" where
  "os_remove p w =
     (case remove_node (fs w) (abspath (cwd w) p) of
        Inl e \<Rightarrow> Inl e
      | Inr n \<Rightarrow> Inr (w\<lparr>fs := n\<rparr>))"

section \<open>Common sources of two directories\<close>

text \<open>
  The generator inside \<^verbatim>\<open>find_common_deep\<close>: the path of every file met by the walk
  of \<open>path\<close>, relative to \<open>path\<close>.
\<close>

definition walked_files :: "world \<Rightarrow> string \<Rightarrow> string list" where
  "walked_files w path =
     concat (map (\<lambda>(root, dirs, files).
                    map (\<lambda>file. os_path_relpath (cwd w) (os_path_join root file) path) files)
                 (os_walk w path))"

text \<open>
  \<^verbatim>\<open>find_common_deep(path1, path2)\<close>. The Python set it returns is a list without
  duplicates here; only the set of its elements is meaningful.
\<close>

definition find_common_deep :: "world \<Rightarrow> string \<Rightarrow> string \<Rightarrow> string list" where
  "find_common_deep w path1 path2 =
     filter (\<lambda>p. p \<in> set (walked_files w path2)) (remdups (walked_files w path1))"

section \<open>The core descriptor\<close>

text \<open>
  The attributes of an \<^verbatim>\<open>iob_core\<close> object that \<^verbatim>\<open>iob_core.py\<close> reads or writes.
  \<open>name\<close> is set by the superclass \<^verbatim>\<open>iob_module\<close>, \<open>class_name\<close> is
  \<^verbatim>\<open>core.__class__.__name__\<close>.
\<close>

record core =
  name :: string
  class_name :: string
  csr_if :: string
  version :: string
  previous_version :: string
  setup_dir :: string
  build_dir :: string
  rw_overlap :: bool
  is_top_module :: bool
  use_netlist :: bool
  is_system :: bool
  board_list :: "string list"
  purpose :: string
  ignore_snippets :: "string list"

text \<open>
  What the object holds when the body of \<^verbatim>\<open>iob_core.__init__\<close> starts: the attributes
  that the superclass constructors and a subclass (such as \<^verbatim>\<open>iob_asym_converter\<close>, which
  presets \<^verbatim>\<open>version\<close>) have set already. \<open>None\<close> is an attribute that is not set.
\<close>

record attrs =
  a_name :: string
  a_class_name :: string
  a_ignore_snippets :: "string list"
  a_csr_if :: "string option"
  a_version :: "string option"
  a_previous_version :: "string option"
  a_setup_dir :: "string option"
  a_build_dir :: "string option"
  a_rw_overlap :: "bool option"
  a_is_top_module :: "bool option"
  a_use_netlist :: "bool option"
  a_is_system :: "bool option"
  a_board_list :: "string list option"
  a_purpose :: "string option"

text \<open>
  Modelled from the spec: \<^verbatim>\<open>set_default_attribute\<close> belongs to \<^verbatim>\<open>iob_base\<close>, which is not
  part of the sources at hand. A field that was not supplied receives the default; an
  explicit value is never overwritten.
\<close>

definition set_default_attribute :: "'a option \<Rightarrow> 'a \<Rightarrow> 'a" where
  "set_default_attribute cur dflt = (case cur of None \<Rightarrow> dflt | Some v \<Rightarrow> v)"

text \<open>Lines 32 to 47 of \<^verbatim>\<open>iob_core.__init__\<close>.\<close>

definition default_attributes :: "attrs \<Rightarrow> bool \<Rightarrow> string \<Rightarrow> core" where
  "default_attributes a is_top purp =
     (let v = set_default_attribute (a_version a) ''1.0'' in
      \<lparr> name = a_name a,
        class_name = a_class_name a,
        csr_if = set_default_attribute (a_csr_if a) ''iob'',
        version = v,
        previous_version = set_default_attribute (a_previous_version a) v,
        setup_dir = set_default_attribute (a_setup_dir a) [],
        build_dir = set_default_attribute (a_build_dir a) [],
        rw_overlap = set_default_attribute (a_rw_overlap a) False,
        is_top_module = set_default_attribute (a_is_top_module a) is_top,
        use_netlist = set_default_attribute (a_use_netlist a) False,
        is_system = set_default_attribute (a_is_system a) False,
        board_list = set_default_attribute (a_board_list a) [],
        purpose = set_default_attribute (a_purpose a) purp,
        ignore_snippets = a_ignore_snippets a \<rparr>)"

text \<open>The dictionary \<^verbatim>\<open>PURPOSE_DIRS\<close>, in insertion order.\<close>

definition PURPOSE_DIRS :: "(string \<times> string) list" where
  "PURPOSE_DIRS =
     [(''hardware'', ''hardware/src''),
      (''simulation'', ''hardware/simulation/src''),
      (''fpga'', ''hardware/fpga/src'')]"

text \<open>The two colour codes of \<^verbatim>\<open>iob_colors\<close> that the messages use.\<close>

record iob_colors =
  FAIL :: string
  ENDC :: string

section \<open>Removing duplicate sources\<close>

text \<open>The inner loop of \<^verbatim>\<open>_remove_duplicate_sources\<close>: \<^verbatim>\<open>for src in common_srcs\<close>.\<close>

fun remove_srcs :: "string \<Rightarrow> string \<Rightarrow> string list \<Rightarrow> world \<Rightarrow> py_exception + world" where
  "remove_srcs bd subfolder [] w = Inr w"
| "remove_srcs bd subfolder (src # srcs) w =
     (case os_remove (os_path_join (os_path_join bd subfolder) src) w of
        Inl e \<Rightarrow> Inl e
      | Inr w' \<Rightarrow> remove_srcs bd subfolder srcs w')"

text \<open>The outer loop: \<^verbatim>\<open>for subfolder in self.PURPOSE_DIRS.values()\<close>.\<close>

fun remove_duplicates_in :: "string \<Rightarrow> string list \<Rightarrow> world \<Rightarrow> py_exception + world" where
  "remove_duplicates_in bd [] w = Inr w"
| "remove_duplicates_in bd (subfolder # rest) w =
     (if subfolder = ''hardware/src'' then remove_duplicates_in bd rest w
      else
        (let common_srcs =
               find_common_deep w (os_path_join bd ''hardware/src'') (os_path_join bd subfolder)
         in case remove_srcs bd subfolder common_srcs w of
              Inl e \<Rightarrow> Inl e
            | Inr w' \<Rightarrow> remove_duplicates_in bd rest w'))"

definition remove_duplicate_sources :: "core \<Rightarrow> world \<Rightarrow> py_exception + world" where
  "remove_duplicate_sources self w =
     remove_duplicates_in (build_dir self) (map snd PURPOSE_DIRS) w"

text \<open>Notions for stating what the pass does: the files below a directory, by their
  paths relative to it, and the absolute paths of the three source directories.\<close>

definition files_below :: "fsnode \<Rightarrow> path \<Rightarrow> path set" where
  "files_below n d = {r. r \<noteq> [] \<and> is_file n (d @ r)}"

definition purpose_path :: "core \<Rightarrow> world \<Rightarrow> string \<Rightarrow> path" where
  "purpose_path self w subfolder =
     abspath (cwd w) (os_path_join (build_dir self) subfolder)"

text \<open>The paths that the pass is to remove: for each of the two other source
  directories, the files whose relative path is also that of a file below
  \<^verbatim>\<open>hardware/src\<close>.\<close>

definition duplicates :: "core \<Rightarrow> world \<Rightarrow> path set" where
  "duplicates self w =
     (\<Union>subfolder \<in> {''hardware/simulation/src'', ''hardware/fpga/src''}.
        (\<lambda>r. purpose_path self w subfolder @ r) `
          (files_below (fs w) (purpose_path self w ''hardware/src'')
             \<inter> files_below (fs w) (purpose_path self w subfolder)))"

definition walked_abs :: "path \<Rightarrow> (string \<times> string list \<times> string list) list \<Rightarrow> path set" where
  "walked_abs cw trips =
     (\<Union>(root, dirs, files) \<in> set trips. (\<lambda>file. abspath cw (os_path_join root file)) ` set files)"

section \<open>Finding the setup directory of a core\<close>

text \<open>\<^verbatim>\<open>file.split(".")[0]\<close>: the part of a file name before its first dot.\<close>

definition first_field :: "string \<Rightarrow> string" where
  "first_field file = hd (split_on CHR ''.'' file)"

text \<open>The inner loop of \<^verbatim>\<open>find_module_setup_dir\<close>, \<^verbatim>\<open>for file in files\<close>: whether it
  reaches the \<^verbatim>\<open>return\<close>.\<close>

fun files_match :: "string \<Rightarrow> string list \<Rightarrow> bool" where
  "files_match cls [] = False"
| "files_match cls (file # files) =
     (if first_field file = cls then True else files_match cls files)"

text \<open>The outer loop, \<^verbatim>\<open>for root, directories, files in os.walk(search_path)\<close>.\<close>

fun search_walk :: "string \<Rightarrow> (string \<times> string list \<times> string list) list \<Rightarrow> string option" where
  "search_walk cls [] = None"
| "search_walk cls ((root, directories, files) # rest) =
     (if files_match cls files then Some root else search_walk cls rest)"

definition find_module_setup_dir ::
    "iob_colors \<Rightarrow> core \<Rightarrow> string \<Rightarrow> world \<Rightarrow> py_exception + string" where
  "find_module_setup_dir col c search_path w =
     (case search_walk (class_name c) (os_walk w search_path) of
        Some root \<Rightarrow> Inr root
      | None \<Rightarrow>
          Inl (Exception (FAIL col @ ''Setup dir of '' @ name c @ '' not found in ''
                            @ search_path @ ''!'' @ ENDC col)))"

definition os_getcwd :: "world \<Rightarrow> string" where
  "os_getcwd w = ''/'' @ join_sep ''/'' (cwd w)"

section \<open>Creating the build directory\<close>

text \<open>
  \<^verbatim>\<open>os.makedirs(p, exist_ok=True)\<close>: every missing directory on the way is created; a
  directory that exists is accepted; a regular file in the way is an error.
\<close>

fun mkdir_p :: "fsnode \<Rightarrow> path \<Rightarrow> py_exception + fsnode" where
  "mkdir_p (Dir es) [] = Inr (Dir es)"
| "mkdir_p (File c) [] = Inl FileExistsError"
| "mkdir_p (File c) (x # xs) = Inl NotADirectoryError"
| "mkdir_p (Dir es) (x # xs) =
     (case map_of es x of
        None \<Rightarrow>
          (case mkdir_p (Dir []) xs of
             Inl e \<Rightarrow> Inl e
           | Inr ch \<Rightarrow> Inr (Dir (es @ [(x, ch)])))
      | Some ch \<Rightarrow>
          (case mkdir_p ch xs of
             Inl e \<Rightarrow> Inl e
           | Inr ch' \<Rightarrow> Inr (Dir (AList.update x ch' es))))"

definition os_makedirs :: "string \<Rightarrow> world \<Rightarrow> py_exception + world" where
  "os_makedirs p w =
     (case mkdir_p (fs w) (abspath (cwd w) p) of
        Inl e \<Rightarrow> Inl e
      | Inr n \<Rightarrow> Inr (w\<lparr>fs := n\<rparr>))"

text \<open>No regular file sits at \<open>p\<close> or at a directory above it.\<close>

definition clear_way :: "fsnode \<Rightarrow> path \<Rightarrow> bool" where
  "clear_way n p = (\<forall>q \<in> set (prefixes p). \<not> is_file n q)"

text \<open>From \<open>w\<close> to \<open>w'\<close> nothing changed but for new directories, each at or above a
  path of \<open>T\<close>.\<close>

definition dirs_added :: "path set \<Rightarrow> world \<Rightarrow> world \<Rightarrow> bool" where
  "dirs_added T w w' =
     (cwd w' = cwd w \<and> stdout w' = stdout w
      \<and> (\<forall>q. stat (fs w') q = stat (fs w) q
             \<or> (stat (fs w) q = None \<and> stat (fs w') q = Some Directory
                 \<and> (\<exists>t\<in>T. prefix q t))))"

text \<open>Opening a file for writing and storing \<open>c\<close> in it: the file is created in an
  existing directory, or truncated.\<close>

fun write_node :: "fsnode \<Rightarrow> path \<Rightarrow> string \<Rightarrow> py_exception + fsnode" where
  "write_node n [] c = Inl IsADirectoryError"
| "write_node (File d) (x # xs) c = Inl NotADirectoryError"
| "write_node (Dir es) (x # xs) c =
     (case map_of es x of
        None \<Rightarrow>
          (if xs = [] then Inr (Dir (es @ [(x, File c)])) else Inl FileNotFoundError)
      | Some ch \<Rightarrow>
          (if xs = [] then
             (case ch of
                File d \<Rightarrow> Inr (Dir (AList.update x (File c) es))
              | Dir ds \<Rightarrow> Inl IsADirectoryError)
           else
             (case write_node ch xs c of
                Inl e \<Rightarrow> Inl e
              | Inr ch' \<Rightarrow> Inr (Dir (AList.update x ch' es)))))"

text \<open>\<^verbatim>\<open>shutil.copyfile(src, dst)\<close>.\<close>

definition shutil_copyfile :: "string \<Rightarrow> string \<Rightarrow> world \<Rightarrow> py_exception + world" where
  "shutil_copyfile src dst w =
     (let s = abspath (cwd w) src; d = abspath (cwd w) dst in
      if s = d \<and> lookup (fs w) s \<noteq> None then Inl SameFileError
      else
        (case lookup (fs w) s of
           None \<Rightarrow> Inl FileNotFoundError
         | Some (Dir ds) \<Rightarrow> Inl IsADirectoryError
         | Some (File c) \<Rightarrow>
             (case write_node (fs w) d c of
                Inl e \<Rightarrow> Inl e
              | Inr n \<Rightarrow> Inr (w\<lparr>fs := n\<rparr>))))"

text \<open>One statement after the other; an exception ends the sequence.\<close>

definition then_do :: "py_exception + 'a \<Rightarrow> ('a \<Rightarrow> py_exception + 'b) \<Rightarrow> py_exception + 'b" where
  "then_do r f = (case r of Inl e \<Rightarrow> Inl e | Inr x \<Rightarrow> f x)"

text \<open>\<^verbatim>\<open>__create_build_dir\<close>. \<open>lib_dir\<close> is the value of \<^verbatim>\<open>copy_srcs.get_lib_dir()\<close>.\<close>

definition create_build_dir ::
    "iob_colors \<Rightarrow> string \<Rightarrow> core \<Rightarrow> world \<Rightarrow> py_exception + world" where
  "create_build_dir col lib_dir self w =
     (if \<not> is_top_module self then
        Inl (AssertionError (FAIL col @ ''Module '' @ name self @ '' is not a top module!''
                               @ ENDC col))
      else
        then_do (os_makedirs (build_dir self) w) (\<lambda>w.
        then_do (os_makedirs (build_dir self @ ''/hardware/src'') w) (\<lambda>w.
        then_do (os_makedirs (build_dir self @ ''/hardware/simulation/src'') w) (\<lambda>w.
        then_do (os_makedirs (build_dir self @ ''/hardware/fpga/src'') w) (\<lambda>w.
        then_do (os_makedirs (build_dir self @ ''/doc'') w) (\<lambda>w.
        then_do (os_makedirs (build_dir self @ ''/doc/tsrc'') w) (\<lambda>w.
        shutil_copyfile (lib_dir @ ''/build.mk'') (build_dir self @ ''/Makefile'') w)))))))"

section \<open>Printing the build directory\<close>

text \<open>\<^verbatim>\<open>print_build_dir\<close>: the assignment to \<^verbatim>\<open>self.build_dir\<close>, then the \<^verbatim>\<open>print\<close>.\<close>

definition print_build_dir :: "core \<Rightarrow> world \<Rightarrow> core \<times> world" where
  "print_build_dir self w =
     (let self' = self\<lparr>build_dir := ''../'' @ name self @ ''_'' @ version self\<rparr>
      in (self', w\<lparr>stdout := stdout w @ [build_dir self']\<rparr>))"

section \<open>The constructor\<close>

text \<open>
  The generation phases live in other modules (\<^verbatim>\<open>copy_srcs\<close>, \<^verbatim>\<open>config_gen\<close>,
  \<^verbatim>\<open>param_gen\<close>, \<^verbatim>\<open>io_gen\<close>, \<^verbatim>\<open>reg_gen\<close>, \<^verbatim>\<open>doc_gen\<close>, \<^verbatim>\<open>verilog_gen\<close>) and are parameters
  here. A phase reads the descriptor, changes the file system and may raise; what it adds
  to the descriptor, and whatever else it keeps, is the component \<open>'x\<close> of the state.
  The attributes of the record \<open>core\<close> are the constructor's own.
\<close>

type_synonym 'x phase = "world \<times> 'x \<Rightarrow> py_exception + world \<times> 'x"

record ('x, 'g, 't) collaborators =
  colors :: iob_colors
  get_lib_dir :: string
  flows_setup :: "core \<Rightarrow> 'x phase"
  copy_rename_setup_directory :: "core \<Rightarrow> 'x phase"
  config_build_mk :: "core \<Rightarrow> 'x phase"
  generate_confs :: "core \<Rightarrow> 'x phase"
  generate_params :: "core \<Rightarrow> 'x phase"
  generate_ports :: "core \<Rightarrow> 'x phase"
  generate_csr :: "core \<Rightarrow> world \<times> 'x \<Rightarrow> py_exception + ('g \<times> 't) \<times> world \<times> 'x"
  replace_includes :: "string \<Rightarrow> string \<Rightarrow> string list \<Rightarrow> 'x phase"
  generate_docs :: "core \<Rightarrow> 'g \<Rightarrow> 't \<Rightarrow> 'x phase"

text \<open>
  The constructor records every call it makes, in order; the call of the documentation
  generator is recorded with the two values it receives, and the return of the register
  generator with the two values it yields.
\<close>

datatype ('g, 't) call =
    Call_find_module_setup_dir
  | Call_create_build_dir
  | Call_flows_setup
  | Call_copy_rename_setup_directory
  | Call_config_build_mk
  | Call_generate_confs
  | Call_generate_params
  | Call_generate_ports
  | Call_generate_csr
  | Returned_generate_csr 'g 't
  | Call_replace_snippet_includes
  | Call_remove_duplicate_sources
  | Call_generate_docs 'g 't

type_synonym ('x, 'g, 't) run = "py_exception option \<times> (world \<times> 'x) \<times> ('g, 't) call list"

text \<open>A statement that calls a phase: skipped once an exception is on its way.\<close>

definition call_phase :: "('g, 't) call \<Rightarrow> 'x phase \<Rightarrow> ('x, 'g, 't) run \<Rightarrow> ('x, 'g, 't) run" where
  "call_phase c f r =
     (case r of
        (Some e, st, tr) \<Rightarrow> (Some e, st, tr)
      | (None, st, tr) \<Rightarrow>
          (case f st of
             Inl e \<Rightarrow> (Some e, st, tr @ [c])
           | Inr st' \<Rightarrow> (None, st', tr @ [c])))"

definition on_world :: "(world \<Rightarrow> py_exception + world) \<Rightarrow> 'x phase" where
  "on_world f = (\<lambda>(w, x). case f w of Inl e \<Rightarrow> Inl e | Inr w' \<Rightarrow> Inr (w', x))"

text \<open>
  \<^verbatim>\<open>iob_core.__init__\<close>. The result is the descriptor or the exception, the state that is
  left behind, and the calls made. (The assignment \<^verbatim>\<open>topdir = self.build_dir\<close> of line 59
  sets a local variable that is not read again.)
\<close>

definition iob_core_init ::
    "('x, 'g, 't) collaborators \<Rightarrow> attrs \<Rightarrow> bool \<Rightarrow> string \<Rightarrow> string \<Rightarrow> world \<times> 'x
       \<Rightarrow> (py_exception + core) \<times> (world \<times> 'x) \<times> ('g, 't) call list" where
  "iob_core_init C a is_top purp topdir st =
     (let self0 = default_attributes a is_top purp;
          self1 = self0\<lparr>build_dir :=
                    (if is_top then ''../'' @ name self0 @ ''_'' @ version self0 @ ''/build''
                     else topdir)\<rparr>
      in case find_module_setup_dir (colors C) self1 (os_getcwd (fst st)) (fst st) of
           Inl e \<Rightarrow> (Inl e, st, [Call_find_module_setup_dir])
         | Inr d \<Rightarrow>
             (let self = self1\<lparr>setup_dir := d\<rparr>;
                  r1 = (None, st, [Call_find_module_setup_dir]);
                  r2 = (if is_top
                        then call_phase Call_create_build_dir
                               (on_world (create_build_dir (colors C) (get_lib_dir C) self)) r1
                        else r1);
                  r3 = (if is_top then call_phase Call_flows_setup (flows_setup C self) r2
                        else r2);
                  r4 = call_phase Call_copy_rename_setup_directory
                         (copy_rename_setup_directory C self) r3;
                  r5 = call_phase Call_config_build_mk (config_build_mk C self) r4;
                  r6 = call_phase Call_generate_confs (generate_confs C self) r5;
                  r7 = call_phase Call_generate_params (generate_params C self) r6;
                  r8 = call_phase Call_generate_ports (generate_ports C self) r7
              in case r8 of
                   (Some e, st8, tr8) \<Rightarrow> (Inl e, st8, tr8)
                 | (None, st8, tr8) \<Rightarrow>
                     (case generate_csr C self st8 of
                        Inl e \<Rightarrow> (Inl e, st8, tr8 @ [Call_generate_csr])
                      | Inr ((csr_gen_obj, reg_table), st9) \<Rightarrow>
                          (let r9 = (None, st9,
                                     tr8 @ [Call_generate_csr,
                                            Returned_generate_csr csr_gen_obj reg_table]);
                               r10 = (if is_top then
                                        call_phase (Call_generate_docs csr_gen_obj reg_table)
                                          (generate_docs C self csr_gen_obj reg_table)
                                          (call_phase Call_remove_duplicate_sources
                                             (on_world (remove_duplicate_sources self))
                                             (call_phase Call_replace_snippet_includes
                                                (replace_includes C (setup_dir self)
                                                   (build_dir self) (ignore_snippets self))
                                                r9))
                                      else r9)
                           in case r10 of
                                (Some e, st', tr) \<Rightarrow> (Inl e, st', tr)
                              | (None, st', tr) \<Rightarrow> (Inr self, st', tr)))))"

text \<open>The calls that \<^verbatim>\<open>__init__\<close> guards with \<^verbatim>\<open>if is_top\<close>.\<close>

fun top_only :: "('g, 't) call \<Rightarrow> bool" where
  "top_only Call_create_build_dir = True"
| "top_only Call_flows_setup = True"
| "top_only Call_replace_snippet_includes = True"
| "top_only Call_remove_duplicate_sources = True"
| "top_only (Call_generate_docs g t) = True"
| "top_only c = False"

text \<open>
  Modelled from the spec: \<^verbatim>\<open>create_instance\<close> belongs to \<^verbatim>\<open>iob_module\<close>, which is not part
  of the sources at hand. A sub-core is constructed as a descriptor that is not the top
  one, and its build directory is inherited unchanged from its parent.
\<close>

definition create_instance ::
    "('x, 'g, 't) collaborators \<Rightarrow> core \<Rightarrow> attrs \<Rightarrow> world \<times> 'x
       \<Rightarrow> (py_exception + core) \<times> (world \<times> 'x) \<times> ('g, 't) call list" where
  "create_instance C parent a st = iob_core_init C a False ''hardware'' (build_dir parent) st"

text \<open>
  Notions for stating what the constructor runs: the descriptor as it is when the setup
  directory is looked up; the state that a list of phases leaves, each phase starting from
  the state the one before it returned and the first exception ending the run; and the
  phases of a descriptor that is not the top one.
\<close>

definition unresolved_core :: "attrs \<Rightarrow> bool \<Rightarrow> string \<Rightarrow> string \<Rightarrow> core" where
  "unresolved_core a is_top purp topdir =
     (let self0 = default_attributes a is_top purp
      in self0\<lparr>build_dir :=
                 (if is_top then ''../'' @ name self0 @ ''_'' @ version self0 @ ''/build''
                  else topdir)\<rparr>)"

fun run_phases :: "'x phase list \<Rightarrow> world \<times> 'x \<Rightarrow> world \<times> 'x" where
  "run_phases [] st = st"
| "run_phases (f # rest) st = (case f st of Inl e \<Rightarrow> st | Inr st' \<Rightarrow> run_phases rest st')"

definition csr_phase :: "('x, 'g, 't) collaborators \<Rightarrow> core \<Rightarrow> 'x phase" where
  "csr_phase C self st =
     (case generate_csr C self st of Inl e \<Rightarrow> Inl e | Inr (r, st') \<Rightarrow> Inr st')"

definition sub_core_phases :: "('x, 'g, 't) collaborators \<Rightarrow> core \<Rightarrow> 'x phase list" where
  "sub_core_phases C self =
     [copy_rename_setup_directory C self, config_build_mk C self, generate_confs C self,
      generate_params C self, generate_ports C self, csr_phase C self]"

section \<open>An example build tree\<close>

text \<open>
  The working directory is \<^verbatim>\<open>/work/core\<close>, which holds the definition of the core
  \<^verbatim>\<open>Foo\<close>. The build tree of \<^verbatim>\<open>Foo\<close>, version \<^verbatim>\<open>1.0\<close>, has been filled by the
  generation phases: \<^verbatim>\<open>a.v\<close> and \<^verbatim>\<open>sub/b.v\<close> were copied into every source directory,
  \<^verbatim>\<open>tb.v\<close> only into the simulation directory.
\<close>

definition example_build :: fsnode where
  "example_build =
     Dir [(''Makefile'', File ''all:''),
          (''hardware'',
             Dir [(''src'', Dir [(''a.v'', File ''A''), (''sub'', Dir [(''b.v'', File ''B'')])]),
                  (''simulation'',
                     Dir [(''src'', Dir [(''a.v'', File ''A''), (''tb.v'', File ''T''),
                                        (''sub'', Dir [(''b.v'', File ''B'')])])]),
                  (''fpga'', Dir [(''src'', Dir [(''a.v'', File ''A'')])])]),
          (''doc'', Dir [(''tsrc'', Dir [])])]"

definition example_world :: world where
  "example_world =
     \<lparr> fs = Dir [(''work'',
                   Dir [(''core'', Dir [(''Foo.py'', File ''class Foo'')]),
                        (''Foo_1.0'', Dir [(''build'', example_build)])]),
                 (''lib'', Dir [(''build.mk'', File ''all:'')])],
       cwd = [''work'', ''core''],
       stdout = [] \<rparr>"

definition example_core :: core where
  "example_core =
     \<lparr> name = ''Foo'', class_name = ''Foo'', csr_if = ''iob'', version = ''1.0'',
       previous_version = ''1.0'', setup_dir = ''/work/core'',
       build_dir = ''../Foo_1.0/build'', rw_overlap = False, is_top_module = True,
       use_netlist = False, is_system = False, board_list = [], purpose = ''hardware'',
       ignore_snippets = [] \<rparr>"

text \<open>The same machine before the first build, and a tree in which two directories hold
  a definition of \<^verbatim>\<open>Foo\<close>.\<close>

definition example_fresh_world :: world where
  "example_fresh_world =
     \<lparr> fs = Dir [(''work'',
                   Dir [(''core'',
                           Dir [(''Foo.py'', File ''class Foo''),
                                (''iob_reg'', Dir [(''iob_reg.py'', File ''class iob_reg'')])])]),
                 (''lib'', Dir [(''build.mk'', File ''all:'')])],
       cwd = [''work'', ''core''],
       stdout = [] \<rparr>"

definition example_two_defs :: world where
  "example_two_defs =
     \<lparr> fs = Dir [(''work'',
                   Dir [(''doc'', Dir [(''README'', File [])]),
                        (''a'', Dir [(''Foo.py'', File ''class Foo'')]),
                        (''b'', Dir [(''Foo.v'', File ''module Foo''),
                                    (''Foo.py'', File ''class Foo'')])])],
       cwd = [''work''],
       stdout = [] \<rparr>"

definition example_colors :: iob_colors where
  "example_colors = \<lparr> FAIL = ''<FAIL>'', ENDC = ''<ENDC>'' \<rparr>"

text \<open>Phases that do nothing, and a register generator that returns two strings.\<close>

definition example_collaborators :: "(unit, string, string) collaborators" where
  "example_collaborators =
     \<lparr> colors = example_colors,
       get_lib_dir = ''/lib'',
       flows_setup = (\<lambda>c st. Inr st),
       copy_rename_setup_directory = (\<lambda>c st. Inr st),
       config_build_mk = (\<lambda>c st. Inr st),
       generate_confs = (\<lambda>c st. Inr st),
       generate_params = (\<lambda>c st. Inr st),
       generate_ports = (\<lambda>c st. Inr st),
       generate_csr = (\<lambda>c st. Inr ((''csr_gen'', ''reg_table''), st)),
       replace_includes = (\<lambda>s b i st. Inr st),
       generate_docs = (\<lambda>c g t st. Inr st) \<rparr>"

text \<open>Phases that leave their name in the state; a copy phase that also puts the
  definition file of the core into \<^verbatim>\<open>hardware/src\<close> and \<^verbatim>\<open>hardware/simulation/src\<close>; and a
  register generator whose two values name the core.\<close>

definition logging_phase :: "string \<Rightarrow> string list phase" where
  "logging_phase n = (\<lambda>(w, x). Inr (w, x @ [n]))"

definition example_copy :: "core \<Rightarrow> string list phase" where
  "example_copy c =
     (\<lambda>(w, x).
        case then_do
               (shutil_copyfile (setup_dir c @ ''/'' @ class_name c @ ''.py'')
                  (build_dir c @ ''/hardware/src/'' @ class_name c @ ''.py'') w)
               (shutil_copyfile (setup_dir c @ ''/'' @ class_name c @ ''.py'')
                  (build_dir c @ ''/hardware/simulation/src/'' @ class_name c @ ''.py''))
        of Inl e \<Rightarrow> Inl e
         | Inr w' \<Rightarrow> Inr (w', x @ [''copy_rename_setup_directory'']))"

definition example_logging_collaborators :: "(string list, string, string) collaborators" where
  "example_logging_collaborators =
     \<lparr> colors = example_colors,
       get_lib_dir = ''/lib'',
       flows_setup = (\<lambda>c. logging_phase ''flows_setup''),
       copy_rename_setup_directory = example_copy,
       config_build_mk = (\<lambda>c. logging_phase ''config_build_mk''),
       generate_confs = (\<lambda>c. logging_phase ''generate_confs''),
       generate_params = (\<lambda>c. logging_phase ''generate_params''),
       generate_ports = (\<lambda>c. logging_phase ''generate_ports''),
       generate_csr =
         (\<lambda>c (w, x). Inr ((''csr of '' @ name c, ''regs of '' @ name c),
                           (w, x @ [''generate_csr'']))),
       replace_includes = (\<lambda>s b i. logging_phase (''replace_includes '' @ b)),
       generate_docs = (\<lambda>c g t. logging_phase (''generate_docs '' @ g @ '', '' @ t)) \<rparr>"

text \<open>A second descriptor of the class \<^verbatim>\<open>Foo\<close>, constructed as a sub-core into the build
  tree of the example.\<close>

definition example_foo_sub_core :: core where
  "example_foo_sub_core = example_core\<lparr>is_top_module := False\<rparr>"

definition example_attrs :: "string \<Rightarrow> attrs" where
  "example_attrs n =
     \<lparr> a_name = n, a_class_name = n, a_ignore_snippets = [],
       a_csr_if = None, a_version = None, a_previous_version = None, a_setup_dir = None,
       a_build_dir = None, a_rw_overlap = None, a_is_top_module = None,
       a_use_netlist = None, a_is_system = None, a_board_list = None, a_purpose = None \<rparr>"

definition example_sub_core :: core where
  "example_sub_core =
     \<lparr> name = ''iob_reg'', class_name = ''iob_reg'', csr_if = ''iob'', version = ''1.0'',
       previous_version = ''1.0'', setup_dir = ''/work/core/iob_reg'',
       build_dir = ''../Foo_1.0/build'', rw_overlap = False, is_top_module = False,
       use_netlist = False, is_system = False, board_list = [], purpose = ''hardware'',
       ignore_snippets = [] \<rparr>"

section \<open>Path names\<close>

lemma split_on_nonempty: "split_on s x \<noteq> []"
  by (induction x) (auto split: list.splits)

lemma split_on_append: "split_on s (x @ s # y) = split_on s x @ split_on s y"
  by (induction x) (auto split: list.splits simp: split_on_nonempty)

lemma split_on_no_sep: "s \<notin> set x \<Longrightarrow> split_on s x = [x]"
  by (induction x) auto

lemma split_on_snoc_sep: "split_on s (x @ [s]) = split_on s x @ [[]]"
  using split_on_append [of s x "[]"] by simp

lemma join_sep_Cons: "join_sep sep (x # r) = (if r = [] then x else x @ sep @ join_sep sep r)"
  by (cases r) simp_all

lemma split_join:
  "r \<noteq> [] \<Longrightarrow> \<forall>n\<in>set r. CHR ''/'' \<notin> set n \<Longrightarrow> split_on CHR ''/'' (join_sep ''/'' r) = r"
proof (induction r)
  case Nil
  then show ?case by simp
next
  case (Cons x r)
  show ?case
  proof (cases "r = []")
    case True
    with Cons.prems show ?thesis by (simp add: split_on_no_sep)
  next
    case False
    with Cons have "split_on CHR ''/'' (join_sep ''/'' r) = r" by simp
    with False Cons.prems show ?thesis
      using split_on_append [of "CHR ''/''" x "join_sep ''/'' r"]
      by (simp add: join_sep_Cons split_on_no_sep)
  qed
qed

lemma foldl_step_valid:
  "\<forall>n\<in>set r. valid_name n \<Longrightarrow> foldl normpath_step acc r = acc @ r"
  by (induction r arbitrary: acc) (auto simp: normpath_step_def valid_name_def)

lemma abspath_empty: "abspath cw [] = cw"
  by (simp add: abspath_def startswith_def normpath_step_def)

lemma abspath_join:
  assumes "\<not> startswith b ''/''"
  shows "abspath cw (os_path_join a b) = foldl normpath_step (abspath cw a) (split_on CHR ''/'' b)"
proof (cases "a = []")
  case True
  with assms show ?thesis
    by (simp add: os_path_join_def abspath_empty) (simp add: abspath_def)
next
  case False
  then have sw: "\<And>y. startswith (a @ y) ''/'' = startswith a ''/''"
    by (cases a) (auto simp: startswith_def)
  show ?thesis
  proof (cases "endswith a ''/''")
    case True
    then obtain a' where a: "a = a' @ ''/''"
      using False by (cases a rule: rev_cases) (auto simp: endswith_def)
    have "abspath cw (a @ b) = foldl normpath_step (abspath cw a) (split_on CHR ''/'' b)"
      unfolding abspath_def sw
      by (simp add: a split_on_append split_on_snoc_sep normpath_step_def)
    with assms True show ?thesis by (simp add: os_path_join_def)
  next
    case notend: False
    have "abspath cw (a @ ''/'' @ b) = foldl normpath_step (abspath cw a) (split_on CHR ''/'' b)"
      unfolding abspath_def sw
      by (simp add: split_on_append)
    with assms notend False show ?thesis by (simp add: os_path_join_def)
  qed
qed

lemma valid_name_not_abs: "valid_name n \<Longrightarrow> \<not> startswith n ''/''"
  by (cases n) (auto simp: valid_name_def startswith_def)

lemma abspath_join_name:
  "valid_name n \<Longrightarrow> abspath cw (os_path_join a n) = abspath cw a @ [n]"
  by (simp add: abspath_join valid_name_not_abs split_on_no_sep valid_name_def normpath_step_def)

lemma join_sep_not_abs:
  "r \<noteq> [] \<Longrightarrow> \<forall>n\<in>set r. valid_name n \<Longrightarrow> \<not> startswith (join_sep ''/'' r) ''/''"
proof (cases r)
  case Nil
  assume "r \<noteq> []"
  with Nil show ?thesis by simp
next
  case (Cons x r')
  assume "\<forall>n\<in>set r. valid_name n"
  with Cons obtain c cs where "x = c # cs" "c \<noteq> CHR ''/''"
    by (cases x) (auto simp: valid_name_def)
  with Cons show ?thesis
    by (simp add: join_sep_Cons startswith_def)
qed

lemma abspath_join_rel:
  assumes "r \<noteq> []" "\<forall>n\<in>set r. valid_name n"
  shows "abspath cw (os_path_join a (join_sep ''/'' r)) = abspath cw a @ r"
proof -
  have "\<forall>n\<in>set r. CHR ''/'' \<notin> set n" using assms(2) by (simp add: valid_name_def)
  then show ?thesis
    using assms by (simp add: abspath_join join_sep_not_abs split_join foldl_step_valid)
qed

lemma split_join_valid:
  "r \<noteq> [] \<Longrightarrow> \<forall>x\<in>set r. valid_name x \<Longrightarrow> split_on CHR ''/'' (join_sep ''/'' r) = r"
  by (rule split_join) (auto simp: valid_name_def)

lemma abspath_fstring:
  assumes "bd \<noteq> []"
  shows "abspath cw (bd @ CHR ''/'' # rest)
           = foldl normpath_step (abspath cw bd) (split_on CHR ''/'' rest)"
proof -
  from assms have "startswith (bd @ CHR ''/'' # rest) ''/'' = startswith bd ''/''"
    by (cases bd) (auto simp: startswith_def)
  then show ?thesis
    by (simp add: abspath_def split_on_append)
qed

lemma lcp_append: "longest_common_prefix xs (xs @ ys) = xs"
  by (induction xs) auto

section \<open>Looking up and walking a tree\<close>

lemma lookup_append:
  "lookup n (p @ q) = (case lookup n p of None \<Rightarrow> None | Some m \<Rightarrow> lookup m q)"
  by (induction n p rule: lookup.induct) (auto split: option.splits)

lemma wf_entries_map_of:
  "wf_entries es \<Longrightarrow> map_of es x = Some ch \<Longrightarrow> valid_name x \<and> wf_node ch"
  by (induction es) (auto split: if_splits)

lemma wf_lookup:
  "wf_node n \<Longrightarrow> lookup n p = Some m \<Longrightarrow> wf_node m \<and> (\<forall>x\<in>set p. valid_name x)"
proof (induction n p rule: lookup.induct)
  case (3 es x xs)
  then show ?case
    by (auto split: option.splits dest: wf_entries_map_of)
qed auto

lemma is_file_Nil: "is_file n [] = (\<exists>c. n = File c)"
  by (cases n) (auto simp: is_file_def)

lemma is_file_Cons:
  "is_file n (x # xs) = (\<exists>es ch. n = Dir es \<and> map_of es x = Some ch \<and> is_file ch xs)"
  by (cases n) (auto simp: is_file_def split: option.splits)

lemma is_file_stat: "is_file n p = (\<exists>c. stat n p = Some (RegularFile c))"
  by (auto simp: is_file_def stat_def split: option.splits fsnode.splits)

lemma is_dir_stat: "is_dir n p = (stat n p = Some Directory)"
  by (auto simp: is_dir_def stat_def split: option.splits fsnode.splits)

lemma stat_Nil: "stat n [] = Some (kind n)"
  by (simp add: stat_def)

lemma stat_File_Cons: "stat (File c) (x # xs) = None"
  by (simp add: stat_def)

lemma stat_Dir_Cons:
  "stat (Dir es) (x # xs) = (case map_of es x of None \<Rightarrow> None | Some ch \<Rightarrow> stat ch xs)"
  by (simp add: stat_def split: option.splits)

lemma stat_file_lookup: "stat n p = Some (RegularFile c) \<longleftrightarrow> lookup n p = Some (File c)"
  by (auto simp: stat_def elim: kind.elims)

lemma filenames_set:
  "distinct (map fst es) \<Longrightarrow> set (filenames es) = {x. \<exists>c. map_of es x = Some (File c)}"
proof (induction es rule: filenames.induct)
  case 1
  then show ?case by simp
next
  case (2 n c es)
  then show ?case by (auto simp: image_iff dest: map_of_SomeD)
next
  case (3 n ds es)
  then show ?case by (auto simp: image_iff dest: map_of_SomeD)
qed

lemma filenames_valid: "wf_entries es \<Longrightarrow> f \<in> set (filenames es) \<Longrightarrow> valid_name f"
  by (induction es rule: filenames.induct) auto

lemma walked_abs_simps:
  "walked_abs cw [] = {}"
  "walked_abs cw ((root, dirs, files) # ts) = (\<lambda>file. abspath cw (os_path_join root file)) ` set files \<union> walked_abs cw ts"
  "walked_abs cw (ts @ us) = walked_abs cw ts \<union> walked_abs cw us"
  by (auto simp: walked_abs_def)

text \<open>
  What a walk meets: in a well-formed tree, the files that the triples of \<^verbatim>\<open>os.walk\<close>
  name are exactly the regular files below the directory walked.
\<close>

lemma walk_abs:
  "wf_node m \<Longrightarrow> walked_abs cw (walk_node t m) = {abspath cw t @ r | r. r \<noteq> [] \<and> is_file m r}"
  "wf_entries es \<Longrightarrow> distinct (map fst es) \<Longrightarrow>
     walked_abs cw (walk_entries t es) =
       {abspath cw t @ x # r | x r ch. map_of es x = Some ch \<and> r \<noteq> [] \<and> is_file ch r}"
proof (induction t m and t es rule: walk_node_walk_entries.induct)
  case (1 root c)
  then show ?case by (auto simp: walked_abs_simps is_file_Cons neq_Nil_conv)
next
  case (2 root es)
  have names: "\<And>x. x \<in> set (filenames es) \<Longrightarrow> valid_name x"
    using 2(2) by (auto simp: filenames_set dest: wf_entries_map_of)
  have A: "(\<lambda>file. abspath cw (os_path_join root file)) ` set (filenames es)
         = {abspath cw root @ [x] | x. \<exists>c. map_of es x = Some (File c)}"
    using 2(2) names by (auto simp: filenames_set abspath_join_name image_iff)
  have B: "walked_abs cw (walk_entries root es) =
       {abspath cw root @ x # r | x r ch. map_of es x = Some ch \<and> r \<noteq> [] \<and> is_file ch r}"
    using 2 by simp
  show ?case
    unfolding walk_node.simps walked_abs_simps A B
    apply (auto simp: is_file_Cons is_file_Nil)
    subgoal for r by (cases r; auto simp: is_file_Cons is_file_Nil; metis neq_Nil_conv)
    done
next
  case (3 root)
  then show ?case by (simp add: walked_abs_simps)
next
  case (4 root e es)
  obtain x ch where e: "e = (x, ch)" by (cases e)
  from 4(4,5) e have wf: "valid_name x" "wf_node ch" "wf_entries es" "distinct (map fst es)" "x \<notin> fst ` set es"
    by auto
  have nox: "map_of es x = None" using wf(5) by (simp add: map_of_eq_None_iff)
  let ?T = "abspath cw root"
  have split: "{?T @ y # r | y r c. map_of (e # es) y = Some c \<and> r \<noteq> [] \<and> is_file c r}
      = {?T @ x # r | r. r \<noteq> [] \<and> is_file ch r}
        \<union> {?T @ y # r | y r c. map_of es y = Some c \<and> r \<noteq> [] \<and> is_file c r}"
    (is "?L = ?A \<union> ?B")
  proof (intro set_eqI iffI)
    fix p assume "p \<in> ?L"
    then obtain y r c where p: "p = ?T @ y # r" "map_of (e # es) y = Some c" "r \<noteq> []" "is_file c r"
      by blast
    show "p \<in> ?A \<union> ?B"
    proof (cases "y = x")
      case True
      with p e show ?thesis by simp
    next
      case False
      with p e have "map_of es y = Some c" by simp
      with p show ?thesis by blast
    qed
  next
    fix p assume "p \<in> ?A \<union> ?B"
    then show "p \<in> ?L"
    proof
      assume "p \<in> ?A"
      then obtain r where "p = ?T @ x # r" "r \<noteq> []" "is_file ch r" by blast
      moreover have "map_of (e # es) x = Some ch" using e by simp
      ultimately show ?thesis by blast
    next
      assume "p \<in> ?B"
      then obtain y r c where p: "p = ?T @ y # r" "map_of es y = Some c" "r \<noteq> []" "is_file c r"
        by blast
      then have "y \<noteq> x" using nox by auto
      with p e have "map_of (e # es) y = Some c" by simp
      with p show ?thesis by blast
    qed
  qed
  have IH2: "walked_abs cw (walk_entries root es) = ?B"
  proof (cases ch)
    case (File c)
    with 4(1)[of c] e wf show ?thesis by simp
  next
    case (Dir ds)
    with 4(3)[of ds] e wf show ?thesis by simp
  qed
  show ?case
  proof (cases ch)
    case (File c)
    have "\<And>r. r \<noteq> [] \<Longrightarrow> \<not> is_file (File c) r" by (auto simp: is_file_Cons neq_Nil_conv)
    then have Aemp: "?A = {}" using File by auto
    have weq: "walk_entries root (e # es) = walk_entries root es"
      using e File by simp
    show ?thesis
      unfolding split weq IH2 Aemp by (simp only: Un_empty_left)
  next
    case (Dir ds)
    have IH1: "walked_abs cw (walk_node (os_path_join root x) ch) = ?A"
      using 4(2)[of ds] wf e Dir by (simp add: abspath_join_name)
    have weq: "walk_entries root (e # es)
        = walk_node (os_path_join root x) ch @ walk_entries root es"
      using e Dir by simp
    show ?thesis
      unfolding split weq walked_abs_simps IH1 IH2 by (rule refl)
  qed
qed

lemma walk_files_valid:
  "wf_node m \<Longrightarrow> (r, ds, files) \<in> set (walk_node tp m) \<Longrightarrow> f \<in> set files \<Longrightarrow> valid_name f"
  "wf_entries es \<Longrightarrow> (r, ds, files) \<in> set (walk_entries tp es) \<Longrightarrow> f \<in> set files \<Longrightarrow> valid_name f"
proof (induction tp m and tp es rule: walk_node_walk_entries.induct)
  case (2 root es)
  then show ?case by (auto dest: filenames_valid)
next
  case (4 root e es)
  then show ?case by (cases "snd e") auto
qed simp_all

lemma walked_abs_os_walk:
  assumes "wf_node (fs w)"
  shows "walked_abs (cwd w) (os_walk w d)
           = (\<lambda>r. abspath (cwd w) d @ r) ` files_below (fs w) (abspath (cwd w) d)"
proof -
  let ?D = "abspath (cwd w) d"
  let ?FB = "files_below (fs w) ?D"
  show ?thesis
  proof (cases "lookup (fs w) ?D")
    case None
    then have "?FB = {}"
      by (simp add: files_below_def is_file_def lookup_append)
    with None show ?thesis
      by (simp add: os_walk_def walked_abs_simps)
  next
    case (Some m)
    with assms have "wf_node m" by (auto dest: wf_lookup)
    then have "walked_abs (cwd w) (walk_node d m) = {?D @ r | r. r \<noteq> [] \<and> is_file m r}"
      by (rule walk_abs(1))
    moreover have "?FB = {r. r \<noteq> [] \<and> is_file m r}"
      using Some by (simp add: files_below_def is_file_def lookup_append)
    ultimately show ?thesis
      using Some by (simp add: os_walk_def) blast
  qed
qed

lemma os_walk_files_valid:
  assumes "wf_node (fs w)" "(root, dirs, files) \<in> set (os_walk w d)" "f \<in> set files"
  shows "valid_name f"
proof (cases "lookup (fs w) (abspath (cwd w) d)")
  case None
  with assms(2) show ?thesis by (simp add: os_walk_def)
next
  case (Some m)
  with assms(1) have "wf_node m" by (auto dest: wf_lookup)
  from walk_files_valid(1) [OF this, of root dirs files d f] assms(2,3) Some
  show ?thesis by (simp add: os_walk_def)
qed

lemma set_concat_walk:
  "set (concat (map (\<lambda>(root, dirs, files). map (\<lambda>file. g (h root file)) files) ws))
     = g ` (\<Union>(root, dirs, files) \<in> set ws. (\<lambda>file. h root file) ` set files)"
  by (induction ws) (auto simp: image_Un image_image)

lemma files_below_valid:
  assumes "wf_node n" "r \<in> files_below n d"
  shows "r \<noteq> []" "\<forall>x\<in>set r. valid_name x"
proof -
  from assms(2) show "r \<noteq> []" by (simp add: files_below_def)
  from assms(2) obtain c where "lookup n (d @ r) = Some (File c)"
    by (auto simp: files_below_def is_file_def split: option.splits fsnode.splits)
  with assms(1) show "\<forall>x\<in>set r. valid_name x"
    by (auto dest: wf_lookup)
qed

lemma walked_files_set:
  assumes "wf_node (fs w)"
  shows "set (walked_files w d) = join_sep ''/'' ` files_below (fs w) (abspath (cwd w) d)"
proof -
  let ?D = "abspath (cwd w) d"
  let ?FB = "files_below (fs w) ?D"
  have rel: "set (walked_files w d) = rel_of_lists ?D ` walked_abs (cwd w) (os_walk w d)"
    unfolding walked_files_def walked_abs_def os_path_relpath_def
    by (rule set_concat_walk)
  have abs: "walked_abs (cwd w) (os_walk w d) = (\<lambda>r. ?D @ r) ` ?FB"
    using assms by (rule walked_abs_os_walk)
  have "rel_of_lists ?D (?D @ r) = join_sep ''/'' r" if "r \<in> ?FB" for r
    using that by (simp add: rel_of_lists_def Let_def lcp_append files_below_def)
  then show ?thesis
    unfolding rel abs image_image by (rule image_cong [OF refl])
qed

section \<open>Removing a file\<close>

lemma wf_entries_delete: "wf_entries es \<Longrightarrow> wf_entries (AList.delete x es)"
  by (induction es) auto

lemma wf_entries_update:
  "wf_entries es \<Longrightarrow> valid_name x \<Longrightarrow> wf_node c \<Longrightarrow> wf_entries (AList.update x c es)"
  by (induction es) auto

lemma remove_node_spec:
  "is_file n p \<Longrightarrow> p \<noteq> [] \<Longrightarrow>
   \<exists>n'. remove_node n p = Inr n' \<and> (wf_node n \<longrightarrow> wf_node n')
        \<and> (\<forall>q. stat n' q = (if q = p then None else stat n q))"
proof (induction n p rule: remove_node.induct)
  case (1 n)
  then show ?case by simp
next
  case (2 c x xs)
  then show ?case by (simp add: is_file_Cons)
next
  case (3 es x xs)
  from 3(2) obtain ch where ch: "map_of es x = Some ch" "is_file ch xs"
    by (auto simp: is_file_Cons)
  show ?case
  proof (cases "xs = []")
    case True
    with ch obtain c where c: "ch = File c" by (auto simp: is_file_Nil)
    let ?n' = "Dir (AList.delete x es)"
    have r: "remove_node (Dir es) (x # xs) = Inr ?n'" using ch c True by simp
    have w: "wf_node (Dir es) \<longrightarrow> wf_node ?n'"
      by (simp add: distinct_delete wf_entries_delete)
    have s: "stat ?n' q = (if q = x # xs then None else stat (Dir es) q)" for q
    proof (cases q)
      case Nil
      then show ?thesis by (simp add: stat_Nil)
    next
      case (Cons y ys)
      then show ?thesis
        using ch c True
        by (cases ys) (auto simp: stat_Dir_Cons delete_conv' stat_File_Cons)
    qed
    from r w s show ?thesis by blast
  next
    case False
    with 3(1)[OF ch(1) False ch(2)] obtain ch' where
      ch': "remove_node ch xs = Inr ch'" "wf_node ch \<longrightarrow> wf_node ch'"
           "\<And>q. stat ch' q = (if q = xs then None else stat ch q)"
      by blast
    let ?n' = "Dir (AList.update x ch' es)"
    have r: "remove_node (Dir es) (x # xs) = Inr ?n'" using ch ch' False by simp
    have w: "wf_node (Dir es) \<longrightarrow> wf_node ?n'"
      using ch ch'(2) by (auto simp: distinct_update intro!: wf_entries_update dest: wf_entries_map_of)
    have s: "stat ?n' q = (if q = x # xs then None else stat (Dir es) q)" for q
    proof (cases q)
      case Nil
      then show ?thesis by (simp add: stat_Nil)
    next
      case (Cons y ys)
      then show ?thesis
        using ch ch'(3) by (auto simp: stat_Dir_Cons update_conv')
    qed
    from r w s show ?thesis by blast
  qed
qed

lemma os_remove_spec:
  assumes "is_file (fs w) (abspath (cwd w) p)" "abspath (cwd w) p \<noteq> []"
  shows "\<exists>w'. os_remove p w = Inr w' \<and> cwd w' = cwd w \<and> stdout w' = stdout w
           \<and> (wf_node (fs w) \<longrightarrow> wf_node (fs w'))
           \<and> (\<forall>q. stat (fs w') q = (if q = abspath (cwd w) p then None else stat (fs w) q))"
proof -
  from remove_node_spec [OF assms] obtain n' where
    "remove_node (fs w) (abspath (cwd w) p) = Inr n'" "wf_node (fs w) \<longrightarrow> wf_node n'"
    "\<forall>q. stat n' q = (if q = abspath (cwd w) p then None else stat (fs w) q)"
    by blast
  then show ?thesis by (simp add: os_remove_def)
qed

section \<open>The pass over the source directories\<close>

text \<open>
  The inner loop visits the elements of a Python set, in an order that the language leaves
  open. Whatever the order, each file of the list is removed and nothing else changes: the
  status of every path after the loop depends on the set of the list's elements only.
\<close>

lemma remove_srcs_spec:
  assumes "wf_node (fs w)" "distinct rs"
    and "\<forall>r\<in>set rs. r \<in> files_below (fs w) (abspath (cwd w) (os_path_join bd sub))"
  shows "\<exists>w'. remove_srcs bd sub (map (join_sep ''/'') rs) w = Inr w'
           \<and> cwd w' = cwd w \<and> stdout w' = stdout w \<and> wf_node (fs w')
           \<and> (\<forall>q. stat (fs w') q =
                 (if q \<in> (\<lambda>r. abspath (cwd w) (os_path_join bd sub) @ r) ` set rs then None
                  else stat (fs w) q))"
  using assms
proof (induction rs arbitrary: w)
  case Nil
  then show ?case by simp
next
  case (Cons r rs)
  let ?D = "abspath (cwd w) (os_path_join bd sub)"
  let ?p = "os_path_join (os_path_join bd sub) (join_sep ''/'' r)"
  from Cons.prems have r: "r \<in> files_below (fs w) ?D" by simp
  with Cons.prems(1) have rv: "r \<noteq> []" "\<forall>x\<in>set r. valid_name x"
    by (auto dest: files_below_valid)
  then have p: "abspath (cwd w) ?p = ?D @ r" by (rule abspath_join_rel)
  from r have "is_file (fs w) (abspath (cwd w) ?p)" "abspath (cwd w) ?p \<noteq> []"
    unfolding p by (simp_all add: files_below_def)
  from os_remove_spec [OF this] Cons.prems(1) obtain w1 where
    w1: "os_remove ?p w = Inr w1" "cwd w1 = cwd w" "stdout w1 = stdout w" "wf_node (fs w1)"
        "\<And>q. stat (fs w1) q = (if q = ?D @ r then None else stat (fs w) q)"
    unfolding p by blast
  have "\<forall>r'\<in>set rs. r' \<in> files_below (fs w1) (abspath (cwd w1) (os_path_join bd sub))"
    using Cons.prems(2,3) w1(2,5) by (auto simp: files_below_def is_file_stat)
  with Cons.IH [of w1] w1(4) Cons.prems(2) obtain w' where
    w': "remove_srcs bd sub (map (join_sep ''/'') rs) w1 = Inr w'"
        "cwd w' = cwd w1" "stdout w' = stdout w1" "wf_node (fs w')"
        "\<And>q. stat (fs w') q =
           (if q \<in> (\<lambda>r. abspath (cwd w1) (os_path_join bd sub) @ r) ` set rs then None
            else stat (fs w1) q)"
    by auto
  have "remove_srcs bd sub (map (join_sep ''/'') (r # rs)) w = Inr w'"
    using w1(1) w'(1) by simp
  moreover have "stat (fs w') q =
      (if q \<in> (\<lambda>r. ?D @ r) ` set (r # rs) then None else stat (fs w) q)" for q
    unfolding w'(5) w1(2) w1(5) by auto
  ultimately show ?case
    using w'(2,3,4) w1(2,3) by auto
qed

lemma common_srcs_lists:
  fixes w :: world and h s :: string
  assumes "wf_node (fs w)"
  defines "H \<equiv> abspath (cwd w) h" and "S \<equiv> abspath (cwd w) s"
  shows "\<exists>rs. find_common_deep w h s = map (join_sep ''/'') rs \<and> distinct rs
           \<and> set rs = files_below (fs w) H \<inter> files_below (fs w) S"
proof -
  let ?J = "join_sep ''/''" and ?Sp = "split_on CHR ''/''"
  let ?srcs = "find_common_deep w h s"
  let ?FH = "files_below (fs w) H" and ?FS = "files_below (fs w) S"
  have inv: "?Sp (?J r) = r" if "r \<in> ?FH \<union> ?FS" for r
    using that assms(1) by (auto intro!: split_join_valid dest: files_below_valid)
  have srcs: "set ?srcs = ?J ` ?FH \<inter> ?J ` ?FS" "distinct ?srcs"
    using assms(1) by (auto simp: find_common_deep_def walked_files_set H_def S_def)
  have rt: "?J (?Sp x) = x" if "x \<in> set ?srcs" for x
    using that inv srcs(1) by auto
  have "map ?J (map ?Sp ?srcs) = ?srcs"
    using rt by (simp add: map_idI)
  moreover have "inj_on ?Sp (set ?srcs)"
    by (rule inj_on_inverseI [of _ ?J]) (rule rt)
  then have "distinct (map ?Sp ?srcs)"
    using srcs(2) by (simp add: distinct_map)
  moreover have "set (map ?Sp ?srcs) = ?FH \<inter> ?FS"
  proof (intro set_eqI iffI)
    fix r assume "r \<in> set (map ?Sp ?srcs)"
    then obtain x where x: "x \<in> set ?srcs" "r = ?Sp x" by auto
    with srcs(1) obtain a b where "a \<in> ?FH" "x = ?J a" "b \<in> ?FS" "x = ?J b" by auto
    with x inv [of a] inv [of b] show "r \<in> ?FH \<inter> ?FS" by auto
  next
    fix r assume r: "r \<in> ?FH \<inter> ?FS"
    then have "?J r \<in> set ?srcs" using srcs(1) by auto
    moreover have "?Sp (?J r) = r" using r inv by auto
    ultimately show "r \<in> set (map ?Sp ?srcs)" by force
  qed
  ultimately show ?thesis by metis
qed

lemma dedup_one:
  fixes w :: world and bd sub :: string
  assumes "wf_node (fs w)"
  defines "H \<equiv> abspath (cwd w) (os_path_join bd ''hardware/src'')"
    and "S \<equiv> abspath (cwd w) (os_path_join bd sub)"
  shows "\<exists>w'. remove_srcs bd sub
                 (find_common_deep w (os_path_join bd ''hardware/src'') (os_path_join bd sub)) w
               = Inr w'
           \<and> cwd w' = cwd w \<and> stdout w' = stdout w \<and> wf_node (fs w')
           \<and> (\<forall>q. stat (fs w') q =
                 (if q \<in> (\<lambda>r. S @ r) ` (files_below (fs w) H \<inter> files_below (fs w) S) then None
                  else stat (fs w) q))"
proof -
  from common_srcs_lists [OF assms(1), of "os_path_join bd ''hardware/src''" "os_path_join bd sub"]
  obtain rs where rs:
    "find_common_deep w (os_path_join bd ''hardware/src'') (os_path_join bd sub)
       = map (join_sep ''/'') rs"
    "distinct rs" "set rs = files_below (fs w) H \<inter> files_below (fs w) S"
    unfolding H_def S_def by blast
  have "\<forall>r\<in>set rs. r \<in> files_below (fs w) (abspath (cwd w) (os_path_join bd sub))"
    using rs(3) by (simp add: S_def)
  from remove_srcs_spec [OF assms(1) rs(2) this] show ?thesis
    unfolding rs(1) rs(3) S_def by simp
qed

lemma purpose_path_simps:
  "purpose_path c w ''hardware/src'' = abspath (cwd w) (build_dir c) @ [''hardware'', ''src'']"
  "purpose_path c w ''hardware/simulation/src''
     = abspath (cwd w) (build_dir c) @ [''hardware'', ''simulation'', ''src'']"
  "purpose_path c w ''hardware/fpga/src''
     = abspath (cwd w) (build_dir c) @ [''hardware'', ''fpga'', ''src'']"
  by (simp_all add: purpose_path_def abspath_join startswith_def normpath_step_def)

lemma purpose_path_cwd: "cwd w' = cwd w \<Longrightarrow> purpose_path c w' s = purpose_path c w s"
  by (simp add: purpose_path_def)

text \<open>
  The pass as a whole: it returns, and it changes the tree at the paths of
  \<open>duplicates\<close> and nowhere else.
\<close>

lemma dedup_spec:
  assumes "wf_node (fs w)"
  shows "\<exists>w'. remove_duplicate_sources c w = Inr w'
           \<and> cwd w' = cwd w \<and> stdout w' = stdout w \<and> wf_node (fs w')
           \<and> (\<forall>q. stat (fs w') q = (if q \<in> duplicates c w then None else stat (fs w) q))"
proof -
  let ?bd = "build_dir c"
  let ?H = "purpose_path c w ''hardware/src''"
  let ?S1 = "purpose_path c w ''hardware/simulation/src''"
  let ?S2 = "purpose_path c w ''hardware/fpga/src''"
  let ?R1 = "(\<lambda>r. ?S1 @ r) ` (files_below (fs w) ?H \<inter> files_below (fs w) ?S1)"
  let ?R2 = "(\<lambda>r. ?S2 @ r) ` (files_below (fs w) ?H \<inter> files_below (fs w) ?S2)"
  from dedup_one [OF assms, of ?bd "''hardware/simulation/src''"] obtain w1 where
    w1: "remove_srcs ?bd ''hardware/simulation/src''
           (find_common_deep w (os_path_join ?bd ''hardware/src'')
              (os_path_join ?bd ''hardware/simulation/src'')) w = Inr w1"
        "cwd w1 = cwd w" "stdout w1 = stdout w" "wf_node (fs w1)"
        "\<And>q. stat (fs w1) q = (if q \<in> ?R1 then None else stat (fs w) q)"
    unfolding purpose_path_def by blast
  have pp: "purpose_path c w1 s = purpose_path c w s" for s
    by (simp add: purpose_path_def w1(2))
  have keepH: "files_below (fs w1) ?H = files_below (fs w) ?H"
    by (auto simp: files_below_def is_file_stat w1(5) purpose_path_simps)
  have keepS2: "files_below (fs w1) ?S2 = files_below (fs w) ?S2"
    by (auto simp: files_below_def is_file_stat w1(5) purpose_path_simps)
  from dedup_one [OF w1(4), of ?bd "''hardware/fpga/src''"] obtain w2 where
    w2: "remove_srcs ?bd ''hardware/fpga/src''
           (find_common_deep w1 (os_path_join ?bd ''hardware/src'')
              (os_path_join ?bd ''hardware/fpga/src'')) w1 = Inr w2"
        "cwd w2 = cwd w1" "stdout w2 = stdout w1" "wf_node (fs w2)"
        "\<And>q. stat (fs w2) q =
           (if q \<in> (\<lambda>r. purpose_path c w1 ''hardware/fpga/src'' @ r) `
                    (files_below (fs w1) (purpose_path c w1 ''hardware/src'')
                       \<inter> files_below (fs w1) (purpose_path c w1 ''hardware/fpga/src''))
            then None else stat (fs w1) q)"
    unfolding purpose_path_def by blast
  have w2s: "stat (fs w2) q = (if q \<in> ?R2 then None else stat (fs w1) q)" for q
    using w2(5) [of q] unfolding pp keepH keepS2 .
  have run: "remove_duplicate_sources c w = Inr w2"
    using w1(1) w2(1)
    by (simp add: remove_duplicate_sources_def PURPOSE_DIRS_def)
  have dup: "duplicates c w = ?R1 \<union> ?R2"
    by (simp add: duplicates_def)
  have "stat (fs w2) q = (if q \<in> duplicates c w then None else stat (fs w) q)" for q
    unfolding dup w2s w1(5) by simp
  with run w2(2,3,4) w1(2,3) show ?thesis by simp
qed

lemma duplicates_iff:
  "purpose_path c w ''hardware/simulation/src'' @ r \<in> duplicates c w \<longleftrightarrow>
     r \<in> files_below (fs w) (purpose_path c w ''hardware/src'')
           \<inter> files_below (fs w) (purpose_path c w ''hardware/simulation/src'')"
  "purpose_path c w ''hardware/fpga/src'' @ r \<in> duplicates c w \<longleftrightarrow>
     r \<in> files_below (fs w) (purpose_path c w ''hardware/src'')
           \<inter> files_below (fs w) (purpose_path c w ''hardware/fpga/src'')"
  "purpose_path c w ''hardware/src'' @ r \<notin> duplicates c w"
  by (auto simp: duplicates_def purpose_path_simps)

lemma duplicates_are_files: "q \<in> duplicates c w \<Longrightarrow> is_file (fs w) q"
  by (auto simp: duplicates_def files_below_def)

lemma files_below_after:
  assumes "\<And>q. stat (fs w') q = (if q \<in> duplicates c w then None else stat (fs w) q)"
  shows "files_below (fs w') d = {r \<in> files_below (fs w) d. d @ r \<notin> duplicates c w}"
  by (auto simp: files_below_def is_file_stat assms)

lemma duplicates_after:
  assumes "cwd w' = cwd w"
    and "\<And>q. stat (fs w') q = (if q \<in> duplicates c w then None else stat (fs w) q)"
  shows "duplicates c w' = {}"
proof -
  note fb = files_below_after [of w' c w, OF assms(2)]
  show ?thesis
    unfolding duplicates_def [of c w'] purpose_path_cwd [OF assms(1)] fb
    by (auto simp: duplicates_iff)
qed

lemma dedup_noop:
  assumes "wf_node (fs w)" "duplicates c w = {}"
  shows "remove_duplicate_sources c w = Inr w"
proof -
  have e: "files_below (fs w) (purpose_path c w ''hardware/src'')
             \<inter> files_below (fs w) (purpose_path c w s) = {}"
    if "s \<in> {''hardware/simulation/src'', ''hardware/fpga/src''}" for s
    using assms(2) that unfolding duplicates_def by blast
  have "find_common_deep w (os_path_join (build_dir c) ''hardware/src'')
          (os_path_join (build_dir c) s) = []"
    if "s \<in> {''hardware/simulation/src'', ''hardware/fpga/src''}" for s
    using common_srcs_lists [OF assms(1), of "os_path_join (build_dir c) ''hardware/src''"
        "os_path_join (build_dir c) s"] e [OF that]
    unfolding purpose_path_def by auto
  then show ?thesis
    by (simp add: remove_duplicate_sources_def PURPOSE_DIRS_def)
qed

lemma example_world_wf: "wf_node (fs example_world)"
  by (simp add: example_world_def example_build_def valid_name_def)

text \<open>
  Claim C1. After deduplication, for each of the two source directories other than
  \<^verbatim>\<open>hardware/src\<close> (\<^verbatim>\<open>hardware/simulation/src\<close> and \<^verbatim>\<open>hardware/fpga/src\<close>), the files that
  remain below it are the files that were there and whose relative path is not the
  relative path of a file below \<^verbatim>\<open>hardware/src\<close>; so no file remains there whose
  relative path also exists below \<^verbatim>\<open>hardware/src\<close>, every file of the intersection is
  deleted, and nothing at or below \<^verbatim>\<open>hardware/src\<close> is touched. The pass returns without
  an exception on every well-formed tree.
\<close>

theorem remove_duplicate_sources_no_common:
  assumes "wf_node (fs w)"
    and "(purp, subfolder) \<in> set PURPOSE_DIRS" and "subfolder \<noteq> ''hardware/src''"
  shows "\<exists>w'. remove_duplicate_sources self w = Inr w'
           \<and> files_below (fs w') (purpose_path self w' subfolder)
               = files_below (fs w) (purpose_path self w subfolder)
                   - files_below (fs w) (purpose_path self w ''hardware/src'')
           \<and> files_below (fs w') (purpose_path self w' subfolder)
               \<inter> files_below (fs w') (purpose_path self w' ''hardware/src'') = {}
           \<and> (\<forall>r. stat (fs w') (purpose_path self w' ''hardware/src'' @ r)
                    = stat (fs w) (purpose_path self w ''hardware/src'' @ r))"
proof -
  from dedup_spec [OF assms(1), of self] obtain w' where
    w': "remove_duplicate_sources self w = Inr w'" "cwd w' = cwd w"
        "\<And>q. stat (fs w') q = (if q \<in> duplicates self w then None else stat (fs w) q)"
    by blast
  note fb = files_below_after [of w' self w, OF w'(3)]
  note pp = purpose_path_cwd [OF w'(2)]
  from assms(2,3) have "subfolder = ''hardware/simulation/src'' \<or> subfolder = ''hardware/fpga/src''"
    by (auto simp: PURPOSE_DIRS_def)
  then have 1: "files_below (fs w') (purpose_path self w' subfolder)
               = files_below (fs w) (purpose_path self w subfolder)
                   - files_below (fs w) (purpose_path self w ''hardware/src'')"
    unfolding pp fb by (auto simp: duplicates_iff)
  have 2: "files_below (fs w') (purpose_path self w' ''hardware/src'')
               = files_below (fs w) (purpose_path self w ''hardware/src'')"
    unfolding pp fb by (auto simp: duplicates_iff)
  have 3: "stat (fs w') (purpose_path self w' ''hardware/src'' @ r)
                    = stat (fs w) (purpose_path self w ''hardware/src'' @ r)" for r
    unfolding pp w'(3) by (simp add: duplicates_iff)
  from w'(1) 1 2 3 show ?thesis by auto
qed

theorem remove_duplicate_sources_no_common_witness:
  "wf_node (fs example_world)
   \<and> (''simulation'', ''hardware/simulation/src'') \<in> set PURPOSE_DIRS
   \<and> ''hardware/simulation/src'' \<noteq> ''hardware/src''
   \<and> (\<exists>w'. remove_duplicate_sources example_core example_world = Inr w'
         \<and> files_below (fs w') (purpose_path example_core w' ''hardware/simulation/src'')
             = files_below (fs example_world)
                 (purpose_path example_core example_world ''hardware/simulation/src'')
               - files_below (fs example_world)
                   (purpose_path example_core example_world ''hardware/src'')
         \<and> files_below (fs w') (purpose_path example_core w' ''hardware/simulation/src'')
             \<inter> files_below (fs w') (purpose_path example_core w' ''hardware/src'') = {}
         \<and> (\<forall>r. stat (fs w') (purpose_path example_core w' ''hardware/src'' @ r)
                  = stat (fs example_world)
                      (purpose_path example_core example_world ''hardware/src'' @ r)))"
proof -
  have 1: "wf_node (fs example_world)" by (rule example_world_wf)
  have 2: "(''simulation'', ''hardware/simulation/src'') \<in> set PURPOSE_DIRS"
    by (simp add: PURPOSE_DIRS_def)
  have 3: "''hardware/simulation/src'' \<noteq> ''hardware/src''" by simp
  from remove_duplicate_sources_no_common [OF 1 2 3, of example_core] 1 2 3
  show ?thesis by (intro conjI)
qed

text \<open>
  Claim C8. Deduplication is idempotent: a second pass right after the first one returns
  the state it was given, so the set of files after two passes is the set after one.
\<close>

theorem remove_duplicate_sources_idempotent:
  assumes "wf_node (fs w)"
  shows "\<exists>w'. remove_duplicate_sources self w = Inr w'
           \<and> remove_duplicate_sources self w' = Inr w'"
proof -
  from dedup_spec [OF assms, of self] obtain w' where
    w': "remove_duplicate_sources self w = Inr w'" "cwd w' = cwd w" "wf_node (fs w')"
        "\<And>q. stat (fs w') q = (if q \<in> duplicates self w then None else stat (fs w) q)"
    by blast
  from duplicates_after [OF w'(2) w'(4)] have "duplicates self w' = {}" .
  with w'(3) have "remove_duplicate_sources self w' = Inr w'" by (rule dedup_noop)
  with w'(1) show ?thesis by simp
qed

theorem remove_duplicate_sources_idempotent_witness:
  "wf_node (fs example_world)
   \<and> (\<exists>w'. remove_duplicate_sources example_core example_world = Inr w'
         \<and> remove_duplicate_sources example_core w' = Inr w')"
  using remove_duplicate_sources_idempotent [OF example_world_wf, of example_core]
    example_world_wf by (intro conjI)

text \<open>
  Claim C9. Deduplication removes regular files only: what is a directory before the pass
  is a directory after it and the other way round (also a directory that the pass has
  emptied), every path whose status changes was a regular file and is absent afterwards,
  and nothing at or below \<^verbatim>\<open>hardware/src\<close> is created, modified or deleted.
\<close>

theorem remove_duplicate_sources_frame:
  assumes "wf_node (fs w)"
  shows "\<exists>w'. remove_duplicate_sources self w = Inr w'
           \<and> (\<forall>q. is_dir (fs w') q = is_dir (fs w) q)
           \<and> (\<forall>q. stat (fs w') q \<noteq> stat (fs w) q \<longrightarrow> is_file (fs w) q \<and> stat (fs w') q = None)
           \<and> (\<forall>r. stat (fs w') (purpose_path self w' ''hardware/src'' @ r)
                    = stat (fs w) (purpose_path self w ''hardware/src'' @ r))"
proof -
  from dedup_spec [OF assms, of self] obtain w' where
    w': "remove_duplicate_sources self w = Inr w'" "cwd w' = cwd w"
        "\<And>q. stat (fs w') q = (if q \<in> duplicates self w then None else stat (fs w) q)"
    by blast
  have 1: "is_dir (fs w') q = is_dir (fs w) q" for q
    using duplicates_are_files [of q self w]
    by (auto simp: is_dir_stat is_file_stat w'(3))
  have 2: "stat (fs w') q \<noteq> stat (fs w) q \<longrightarrow> is_file (fs w) q \<and> stat (fs w') q = None" for q
    using duplicates_are_files [of q self w] by (simp add: w'(3))
  have 3: "stat (fs w') (purpose_path self w' ''hardware/src'' @ r)
                    = stat (fs w) (purpose_path self w ''hardware/src'' @ r)" for r
    unfolding purpose_path_cwd [OF w'(2)] w'(3) by (simp add: duplicates_iff)
  from w'(1) 1 2 3 show ?thesis by blast
qed

theorem remove_duplicate_sources_frame_witness:
  "wf_node (fs example_world)
   \<and> (\<exists>w'. remove_duplicate_sources example_core example_world = Inr w'
         \<and> (\<forall>q. is_dir (fs w') q = is_dir (fs example_world) q)
         \<and> (\<forall>q. stat (fs w') q \<noteq> stat (fs example_world) q \<longrightarrow>
                 is_file (fs example_world) q \<and> stat (fs w') q = None)
         \<and> (\<forall>r. stat (fs w') (purpose_path example_core w' ''hardware/src'' @ r)
                  = stat (fs example_world)
                      (purpose_path example_core example_world ''hardware/src'' @ r)))"
  using remove_duplicate_sources_frame [OF example_world_wf, of example_core]
    example_world_wf by (intro conjI)

text \<open>
  Claim C10. The common-source computation is commutative: for every pair of directory
  arguments and every state of the file system, \<^verbatim>\<open>find_common_deep\<close> returns the same
  set of relative paths when its two arguments are swapped.
\<close>

theorem find_common_deep_commute:
  "set (find_common_deep w path1 path2) = set (find_common_deep w path2 path1)"
  by (auto simp: find_common_deep_def)

theorem find_common_deep_commute_witness:
  "set (find_common_deep example_world ''../Foo_1.0/build/hardware/src''
          ''../Foo_1.0/build/hardware/simulation/src'') = {''a.v'', ''sub/b.v''}
   \<and> set (find_common_deep example_world ''../Foo_1.0/build/hardware/simulation/src''
            ''../Foo_1.0/build/hardware/src'') = {''a.v'', ''sub/b.v''}"
proof -
  have "set (find_common_deep example_world ''../Foo_1.0/build/hardware/src''
          ''../Foo_1.0/build/hardware/simulation/src'') = {''a.v'', ''sub/b.v''}"
    by code_simp
  with find_common_deep_commute [of example_world "''../Foo_1.0/build/hardware/src''"
      "''../Foo_1.0/build/hardware/simulation/src''"]
  show ?thesis by simp
qed

section \<open>Resolving the setup directory\<close>

text \<open>
  The part of a file name that is compared with the type name: the name itself when it has
  no dot, and otherwise what stands before its first dot, the base name of
  \<^verbatim>\<open><base>.<extension>\<close>.
\<close>

lemma first_field_no_dot: "CHR ''.'' \<notin> set file \<Longrightarrow> first_field file = file"
  by (simp add: first_field_def split_on_no_sep)

lemma first_field_extension:
  "CHR ''.'' \<notin> set base \<Longrightarrow> first_field (base @ CHR ''.'' # ext) = base"
  by (simp add: first_field_def split_on_append split_on_no_sep)

text \<open>The walk is top-down: the directory it starts from comes first.\<close>

lemma os_walk_root_first:
  "lookup (fs w) (abspath (cwd w) tp) = Some (Dir es) \<Longrightarrow>
   os_walk w tp = (tp, dirnames es, filenames es) # walk_entries tp es"
  by (simp add: os_walk_def)

lemma files_match_iff: "files_match cls files \<longleftrightarrow> (\<exists>file\<in>set files. first_field file = cls)"
  by (induction files) auto

lemma search_walk_None:
  "search_walk cls ws = None \<longleftrightarrow> (\<forall>(root, dirs, files)\<in>set ws. \<not> files_match cls files)"
  by (induction ws rule: search_walk.induct) auto

lemma search_walk_find:
  "search_walk cls ws = map_option fst (find (\<lambda>t. files_match cls (snd (snd t))) ws)"
  by (induction ws rule: search_walk.induct) auto

lemma example_two_defs_wf: "wf_node (fs example_two_defs)"
  by (simp add: example_two_defs_def valid_name_def)

text \<open>
  Claim C5. Setup-directory resolution walks the tree from the search root and returns
  the directory of the first triple of the walk, in the order of \<^verbatim>\<open>os.walk\<close> (a directory
  before its sub-directories, entries in enumeration order), that lists a file whose name
  up to its first dot equals the type name of the core. The result is a function of the
  tree, so that among several matching files exactly one directory is returned, the first
  in that order.
\<close>

theorem find_module_setup_dir_first_match:
  "find_module_setup_dir col c search_path w = Inr d \<longleftrightarrow>
     (\<exists>i<length (os_walk w search_path).
        (\<exists>dirs files. os_walk w search_path ! i = (d, dirs, files)
           \<and> (\<exists>file\<in>set files. first_field file = class_name c))
        \<and> (\<forall>j<i. \<forall>file\<in>set (snd (snd (os_walk w search_path ! j))).
               first_field file \<noteq> class_name c))"
proof -
  let ?ws = "os_walk w search_path"
  let ?P = "\<lambda>t. files_match (class_name c) (snd (snd t))"
  have B: "(\<exists>dirs files. t = (d, dirs, files)
              \<and> (\<exists>file\<in>set files. first_field file = class_name c))
           \<longleftrightarrow> ?P t \<and> fst t = d" for t
    by (cases t) (auto simp: files_match_iff)
  have N: "(\<forall>file\<in>set (snd (snd t)). first_field file \<noteq> class_name c) \<longleftrightarrow> \<not> ?P t" for t
    by (auto simp: files_match_iff)
  have "find_module_setup_dir col c search_path w = Inr d \<longleftrightarrow> (\<exists>t. find ?P ?ws = Some t \<and> fst t = d)"
    by (auto simp: find_module_setup_dir_def search_walk_find split: option.splits)
  also have "\<dots> \<longleftrightarrow> (\<exists>i<length ?ws. (?P (?ws ! i) \<and> fst (?ws ! i) = d) \<and> (\<forall>j<i. \<not> ?P (?ws ! j)))"
    unfolding find_Some_iff by blast
  finally show ?thesis unfolding B N .
qed

theorem find_module_setup_dir_first_match_witness:
  "find_module_setup_dir example_colors example_core ''/work'' example_two_defs = Inr ''/work/a''
   \<and> (\<exists>i<length (os_walk example_two_defs ''/work'').
        (\<exists>dirs files. os_walk example_two_defs ''/work'' ! i = (''/work/a'', dirs, files)
           \<and> (\<exists>file\<in>set files. first_field file = class_name example_core))
        \<and> (\<forall>j<i. \<forall>file\<in>set (snd (snd (os_walk example_two_defs ''/work'' ! j))).
               first_field file \<noteq> class_name example_core))"
proof -
  have "find_module_setup_dir example_colors example_core ''/work'' example_two_defs
          = Inr ''/work/a''"
    by code_simp
  with find_module_setup_dir_first_match [of example_colors example_core "''/work''"
      example_two_defs "''/work/a''"]
  show ?thesis by simp
qed

text \<open>
  Claim C3. When no regular file below the search root has a name whose part before the
  first dot is the type name of the core, resolution raises the exception whose message
  holds the name of the core and the search root, and returns no path.
\<close>

theorem find_module_setup_dir_not_found:
  assumes "wf_node (fs w)"
    and "\<forall>r\<in>files_below (fs w) (abspath (cwd w) search_path). first_field (last r) \<noteq> class_name c"
  shows "find_module_setup_dir col c search_path w =
           Inl (Exception (FAIL col @ ''Setup dir of '' @ name c @ '' not found in ''
                             @ search_path @ ''!'' @ ENDC col))
         \<and> (\<forall>d. find_module_setup_dir col c search_path w \<noteq> Inr d)"
proof -
  have "\<not> files_match (class_name c) files"
    if t: "(root, dirs, files) \<in> set (os_walk w search_path)" for root dirs files
  proof
    assume "files_match (class_name c) files"
    then obtain f where f: "f \<in> set files" "first_field f = class_name c"
      by (auto simp: files_match_iff)
    from os_walk_files_valid [OF assms(1) t f(1)] have v: "valid_name f" .
    have "abspath (cwd w) (os_path_join root f) \<in> walked_abs (cwd w) (os_walk w search_path)"
      unfolding walked_abs_def using t f(1) by blast
    then obtain r where r: "r \<in> files_below (fs w) (abspath (cwd w) search_path)"
        "abspath (cwd w) (os_path_join root f) = abspath (cwd w) search_path @ r"
      unfolding walked_abs_os_walk [OF assms(1)] by blast
    from r(1) have "r \<noteq> []" by (simp add: files_below_def)
    with r(2) v have "last r = f"
      by (metis abspath_join_name last_appendR last_snoc)
    with assms(2) r(1) f(2) show False by blast
  qed
  then have "search_walk (class_name c) (os_walk w search_path) = None"
    by (auto simp: search_walk_None)
  then show ?thesis by (simp add: find_module_setup_dir_def)
qed

theorem find_module_setup_dir_not_found_witness:
  "wf_node (fs example_two_defs)
   \<and> (\<lambda>r. first_field (last r)) `
         files_below (fs example_two_defs) (abspath (cwd example_two_defs) ''/work'')
       = {''README'', ''Foo''}
   \<and> class_name example_sub_core = ''iob_reg''
   \<and> find_module_setup_dir example_colors example_sub_core ''/work'' example_two_defs
       = Inl (Exception ''<FAIL>Setup dir of iob_reg not found in /work!<ENDC>'')"
proof -
  let ?w = example_two_defs
  let ?F = "files_below (fs ?w) (abspath (cwd ?w) ''/work'')"
  have 1: "wf_node (fs ?w)" by (rule example_two_defs_wf)
  have D: "abspath (cwd ?w) ''/work'' = [''work'']" by code_simp
  have W: "walked_abs (cwd ?w) (os_walk ?w ''/work'')
             = {[''work'', ''doc'', ''README''], [''work'', ''a'', ''Foo.py''],
                [''work'', ''b'', ''Foo.v''], [''work'', ''b'', ''Foo.py'']}"
    by code_simp
  have "(\<lambda>r. [''work''] @ r) ` ?F
          = (\<lambda>r. [''work''] @ r) ` {[''doc'', ''README''], [''a'', ''Foo.py''],
                                        [''b'', ''Foo.v''], [''b'', ''Foo.py'']}"
    using walked_abs_os_walk [OF 1, of "''/work''"] unfolding W D by simp
  then have F: "?F = {[''doc'', ''README''], [''a'', ''Foo.py''], [''b'', ''Foo.v''],
                      [''b'', ''Foo.py'']}"
    by (rule inj_image_eq_iff [THEN iffD1, rotated]) (simp add: inj_on_def)
  have ff: "first_field ''README'' = ''README''" "first_field ''Foo.py'' = ''Foo''"
      "first_field ''Foo.v'' = ''Foo''"
    by (simp_all add: first_field_def)
  have 2: "(\<lambda>r. first_field (last r)) ` ?F = {''README'', ''Foo''}"
    unfolding F by (simp add: ff)
  have 3: "class_name example_sub_core = ''iob_reg''" by (simp add: example_sub_core_def)
  have "\<forall>r\<in>?F. first_field (last r) \<noteq> class_name example_sub_core"
    unfolding F 3 by (simp add: ff)
  from find_module_setup_dir_not_found [OF 1 this, of example_colors] 1 2 3
  show ?thesis by (simp add: example_colors_def example_sub_core_def)
qed

section \<open>The build directory\<close>

lemma clear_way_Nil: "clear_way n [] = (\<not> is_file n [])"
  by (simp add: clear_way_def)

lemma clear_way_Cons:
  "clear_way (Dir es) (x # xs) = (case map_of es x of None \<Rightarrow> True | Some ch \<Rightarrow> clear_way ch xs)"
  by (auto simp: clear_way_def is_file_Nil is_file_Cons split: option.splits)

lemma clear_way_File: "\<not> clear_way (File c) p"
  by (cases p) (auto simp: clear_way_def is_file_Nil)

lemma clear_way_empty_Dir: "clear_way (Dir []) p"
  by (cases p) (auto simp: clear_way_Nil clear_way_Cons is_file_Nil)

lemma clear_way_iff: "clear_way n p \<longleftrightarrow> (\<forall>q. prefix q p \<longrightarrow> \<not> is_file n q)"
  by (auto simp: clear_way_def in_set_prefixes)

lemma clear_way_prefix: "clear_way n p \<Longrightarrow> prefix q p \<Longrightarrow> clear_way n q"
  unfolding clear_way_iff by (meson prefix_order.trans)

lemma clear_way_stat: "clear_way n p \<Longrightarrow> stat n p = None \<or> stat n p = Some Directory"
proof -
  assume "clear_way n p"
  then have "\<not> is_file n p" unfolding clear_way_iff by blast
  then show ?thesis
    by (cases "stat n p") (auto simp: is_file_stat intro: entry.exhaust)
qed

lemma mkdir_p_spec:
  "clear_way n p \<Longrightarrow>
   \<exists>n'. mkdir_p n p = Inr n'
        \<and> (\<forall>q. stat n' q = (if prefix q p \<and> stat n q = None then Some Directory else stat n q))"
proof (induction n p rule: mkdir_p.induct)
  case (1 es)
  then show ?case by (auto simp: stat_Nil)
next
  case (2 c)
  then show ?case by (simp add: clear_way_File)
next
  case (3 c x xs)
  then show ?case by (simp add: clear_way_File)
next
  case (4 es x xs)
  show ?case
  proof (cases "map_of es x")
    case None
    from "4.IH"(1) [OF None clear_way_empty_Dir] obtain ch where
      ch: "mkdir_p (Dir []) xs = Inr ch"
          "\<And>q. stat ch q = (if prefix q xs \<and> stat (Dir []) q = None then Some Directory
                              else stat (Dir []) q)"
      by blast
    let ?n' = "Dir (es @ [(x, ch)])"
    have r: "mkdir_p (Dir es) (x # xs) = Inr ?n'" using None ch(1) by simp
    have "stat ?n' q = (if prefix q (x # xs) \<and> stat (Dir es) q = None then Some Directory
                         else stat (Dir es) q)" for q
    proof (cases q)
      case Nil
      then show ?thesis by (simp add: stat_Nil)
    next
      case (Cons y ys)
      show ?thesis
      proof (cases "y = x")
        case True
        then show ?thesis
          using None Cons ch(2) [of ys]
          by (cases ys) (auto simp: stat_Dir_Cons stat_Nil map_add_def split: option.splits)
      next
        case False
        then show ?thesis
          using Cons by (auto simp: stat_Dir_Cons map_add_def split: option.splits)
      qed
    qed
    with r show ?thesis by blast
  next
    case (Some ch)
    with "4.prems" have "clear_way ch xs" by (simp add: clear_way_Cons)
    from "4.IH"(2) [OF Some this] obtain ch' where
      ch': "mkdir_p ch xs = Inr ch'"
           "\<And>q. stat ch' q = (if prefix q xs \<and> stat ch q = None then Some Directory else stat ch q)"
      by blast
    let ?n' = "Dir (AList.update x ch' es)"
    have r: "mkdir_p (Dir es) (x # xs) = Inr ?n'" using Some ch'(1) by simp
    have "stat ?n' q = (if prefix q (x # xs) \<and> stat (Dir es) q = None then Some Directory
                         else stat (Dir es) q)" for q
    proof (cases q)
      case Nil
      then show ?thesis by (simp add: stat_Nil)
    next
      case (Cons y ys)
      then show ?thesis
        using Some ch'(2) [of ys] by (auto simp: stat_Dir_Cons update_conv')
    qed
    with r show ?thesis by blast
  qed
qed

lemma mkdir_p_noop: "is_dir n p \<Longrightarrow> mkdir_p n p = Inr n"
proof (induction n p rule: mkdir_p.induct)
  case (4 es x xs)
  from "4.prems" obtain ch where ch: "map_of es x = Some ch" "is_dir ch xs"
    by (auto simp: is_dir_def split: option.splits)
  with "4.IH"(2) have "mkdir_p ch xs = Inr ch" by simp
  with ch show ?case by (simp add: update_triv)
qed (simp_all add: is_dir_def)

lemma write_node_spec:
  "p \<noteq> [] \<Longrightarrow> is_dir n (butlast p) \<Longrightarrow> \<not> is_dir n p \<Longrightarrow>
   \<exists>n'. write_node n p c = Inr n'
        \<and> (\<forall>q. stat n' q = (if q = p then Some (RegularFile c) else stat n q))"
proof (induction n p c rule: write_node.induct)
  case (1 n c)
  then show ?case by simp
next
  case (2 d x xs c)
  then show ?case by (cases xs) (simp_all add: is_dir_def)
next
  case (3 es x xs c)
  show ?case
  proof (cases "map_of es x")
    case None
    with "3.prems"(2) have xs: "xs = []" by (cases xs) (simp_all add: is_dir_def)
    let ?n' = "Dir (es @ [(x, File c)])"
    have r: "write_node (Dir es) (x # xs) c = Inr ?n'" using None xs by simp
    have "stat ?n' q = (if q = x # xs then Some (RegularFile c) else stat (Dir es) q)" for q
    proof (cases q)
      case Nil
      then show ?thesis by (simp add: stat_Nil)
    next
      case (Cons y ys)
      then show ?thesis
        using None xs
        by (cases ys) (auto simp: stat_Dir_Cons stat_Nil stat_File_Cons map_add_def split: option.splits)
    qed
    with r show ?thesis by blast
  next
    case (Some ch)
    show ?thesis
    proof (cases "xs = []")
      case True
      with Some "3.prems"(3) obtain d where d: "ch = File d"
        by (cases ch) (auto simp: is_dir_def)
      let ?n' = "Dir (AList.update x (File c) es)"
      have r: "write_node (Dir es) (x # xs) c = Inr ?n'" using Some True d by simp
      have "stat ?n' q = (if q = x # xs then Some (RegularFile c) else stat (Dir es) q)" for q
      proof (cases q)
        case Nil
        then show ?thesis by (simp add: stat_Nil)
      next
        case (Cons y ys)
        then show ?thesis
          using Some True d
          by (cases ys) (auto simp: stat_Dir_Cons stat_Nil stat_File_Cons update_conv')
      qed
      with r show ?thesis by blast
    next
      case False
      from "3.prems"(2) Some False have 1: "is_dir ch (butlast xs)" by (simp add: is_dir_def)
      from "3.prems"(3) Some have 2: "\<not> is_dir ch xs" by (simp add: is_dir_def)
      from "3.IH" [OF Some False False 1 2] obtain ch' where
        ch': "write_node ch xs c = Inr ch'"
             "\<And>q. stat ch' q = (if q = xs then Some (RegularFile c) else stat ch q)"
        by blast
      let ?n' = "Dir (AList.update x ch' es)"
      have r: "write_node (Dir es) (x # xs) c = Inr ?n'" using Some False ch'(1) by simp
      have "stat ?n' q = (if q = x # xs then Some (RegularFile c) else stat (Dir es) q)" for q
      proof (cases q)
        case Nil
        then show ?thesis by (simp add: stat_Nil)
      next
        case (Cons y ys)
        then show ?thesis
          using Some ch'(2) [of ys] by (auto simp: stat_Dir_Cons update_conv')
      qed
      with r show ?thesis by blast
    qed
  qed
qed

lemma write_node_noop: "p \<noteq> [] \<Longrightarrow> lookup n p = Some (File c) \<Longrightarrow> write_node n p c = Inr n"
proof (induction n p c rule: write_node.induct)
  case (3 es x xs c)
  then obtain ch where ch: "map_of es x = Some ch" "lookup ch xs = Some (File c)"
    by (auto split: option.splits)
  show ?case
  proof (cases "xs = []")
    case True
    with ch show ?thesis by (simp add: update_triv)
  next
    case False
    with "3.IH" [OF ch(1) False False ch(2)] ch show ?thesis by (simp add: update_triv)
  qed
qed simp_all

lemma build_paths:
  assumes "bd \<noteq> []"
  shows "abspath cw (bd @ ''/hardware/src'') = abspath cw bd @ [''hardware'', ''src'']"
    and "abspath cw (bd @ ''/hardware/simulation/src'')
           = abspath cw bd @ [''hardware'', ''simulation'', ''src'']"
    and "abspath cw (bd @ ''/hardware/fpga/src'') = abspath cw bd @ [''hardware'', ''fpga'', ''src'']"
    and "abspath cw (bd @ ''/doc'') = abspath cw bd @ [''doc'']"
    and "abspath cw (bd @ ''/doc/tsrc'') = abspath cw bd @ [''doc'', ''tsrc'']"
    and "abspath cw (bd @ ''/Makefile'') = abspath cw bd @ [''Makefile'']"
  using assms by (simp_all add: abspath_fstring normpath_step_def)

lemma template_path:
  "abspath cw (lib_dir @ ''/build.mk'')
     = (if lib_dir = [] then [] else abspath cw lib_dir) @ [''build.mk'']"
  by (simp add: abspath_fstring normpath_step_def)
     (simp add: abspath_def startswith_def normpath_step_def)

lemma os_makedirs_spec:
  assumes "clear_way (fs w) (abspath (cwd w) p)" "abspath (cwd w) p \<in> T"
  shows "\<exists>w'. os_makedirs p w = Inr w' \<and> dirs_added T w w' \<and> is_dir (fs w') (abspath (cwd w) p)"
proof -
  let ?P = "abspath (cwd w) p"
  from mkdir_p_spec [OF assms(1)] obtain n' where
    n': "mkdir_p (fs w) ?P = Inr n'"
        "\<And>q. stat n' q = (if prefix q ?P \<and> stat (fs w) q = None then Some Directory
                            else stat (fs w) q)"
    by blast
  have "os_makedirs p w = Inr (w\<lparr>fs := n'\<rparr>)" using n'(1) by (simp add: os_makedirs_def)
  moreover have "dirs_added T w (w\<lparr>fs := n'\<rparr>)"
    using assms(2) by (auto simp: dirs_added_def n'(2))
  moreover have "is_dir (fs (w\<lparr>fs := n'\<rparr>)) ?P"
    using clear_way_stat [OF assms(1)] by (auto simp: is_dir_stat n'(2))
  ultimately show ?thesis by blast
qed

lemma os_makedirs_noop: "is_dir (fs w) (abspath (cwd w) p) \<Longrightarrow> os_makedirs p w = Inr w"
  by (simp add: os_makedirs_def mkdir_p_noop)

lemma dirs_added_trans: "dirs_added T w w1 \<Longrightarrow> dirs_added T w1 w2 \<Longrightarrow> dirs_added T w w2"
  unfolding dirs_added_def by (metis option.distinct(1))

lemma dirs_added_clear_way: "dirs_added T w w' \<Longrightarrow> clear_way (fs w) p \<Longrightarrow> clear_way (fs w') p"
  unfolding dirs_added_def clear_way_iff is_file_stat
  by (metis entry.distinct(1) option.inject)

lemma dirs_added_is_dir: "dirs_added T w w' \<Longrightarrow> is_dir (fs w) p \<Longrightarrow> is_dir (fs w') p"
  unfolding dirs_added_def is_dir_stat by (metis option.distinct(1))

lemma dirs_added_file:
  "dirs_added T w w' \<Longrightarrow> stat (fs w) p = Some (RegularFile c) \<Longrightarrow> stat (fs w') p = Some (RegularFile c)"
  unfolding dirs_added_def by (metis option.distinct(1))

lemma dirs_added_not_dir:
  "dirs_added T w w' \<Longrightarrow> \<not> is_dir (fs w) p \<Longrightarrow> \<forall>t\<in>T. \<not> prefix p t \<Longrightarrow> \<not> is_dir (fs w') p"
  unfolding dirs_added_def is_dir_stat by metis

text \<open>
  Claim C6. For a top-level core, \<^verbatim>\<open>__create_build_dir\<close> leaves the directories
  \<^verbatim>\<open>hardware/src\<close>, \<^verbatim>\<open>hardware/simulation/src\<close>, \<^verbatim>\<open>hardware/fpga/src\<close>, \<^verbatim>\<open>doc\<close> and
  \<^verbatim>\<open>doc/tsrc\<close> below the build directory and a \<^verbatim>\<open>Makefile\<close> with the contents of the
  library's \<^verbatim>\<open>build.mk\<close> at its root; sub-instances play no part in it. It returns
  whenever the file system lets it: no regular file sits where one of the directories
  goes, the template exists, and \<^verbatim>\<open>Makefile\<close> is not a directory. Directories that exist
  already are accepted: a second run on the result returns the same state.
\<close>

theorem create_build_dir_layout:
  fixes self :: core and w :: world
  defines "B \<equiv> abspath (cwd w) (build_dir self)"
  assumes top: "is_top_module self" and bd: "build_dir self \<noteq> []"
    and clear: "clear_way (fs w) (B @ [''hardware'', ''src''])"
               "clear_way (fs w) (B @ [''hardware'', ''simulation'', ''src''])"
               "clear_way (fs w) (B @ [''hardware'', ''fpga'', ''src''])"
               "clear_way (fs w) (B @ [''doc'', ''tsrc''])"
    and mk: "stat (fs w) (abspath (cwd w) (lib_dir @ ''/build.mk'')) = Some (RegularFile mk)"
    and nodir: "\<not> is_dir (fs w) (B @ [''Makefile''])"
  shows "\<exists>w'. create_build_dir col lib_dir self w = Inr w'
           \<and> is_dir (fs w') (B @ [''hardware'', ''src''])
           \<and> is_dir (fs w') (B @ [''hardware'', ''simulation'', ''src''])
           \<and> is_dir (fs w') (B @ [''hardware'', ''fpga'', ''src''])
           \<and> is_dir (fs w') (B @ [''doc''])
           \<and> is_dir (fs w') (B @ [''doc'', ''tsrc''])
           \<and> stat (fs w') (B @ [''Makefile'']) = Some (RegularFile mk)
           \<and> create_build_dir col lib_dir self w' = Inr w'"
proof -
  let ?bd = "build_dir self"
  let ?T = "{B, B @ [''hardware'', ''src''], B @ [''hardware'', ''simulation'', ''src''],
             B @ [''hardware'', ''fpga'', ''src''], B @ [''doc''], B @ [''doc'', ''tsrc'']}"
  let ?L = "abspath (cwd w) (lib_dir @ ''/build.mk'')"
  let ?M = "B @ [''Makefile'']"
  note bp = build_paths [OF bd, of "cwd w", folded B_def]
  have cB: "clear_way (fs w) B" and cD: "clear_way (fs w) (B @ [''doc''])"
    using clear(4) by (auto elim: clear_way_prefix)
  \<comment> \<open>the six calls of \<^verbatim>\<open>os.makedirs\<close>\<close>
  from os_makedirs_spec [of w ?bd ?T] cB obtain w1 where
    w1: "os_makedirs ?bd w = Inr w1" "dirs_added ?T w w1" "is_dir (fs w1) B"
    unfolding B_def by auto
  have c1: "cwd w1 = cwd w" using w1(2) by (simp add: dirs_added_def)
  from os_makedirs_spec [of w1 "?bd @ ''/hardware/src''" ?T]
    dirs_added_clear_way [OF w1(2) clear(1)] obtain w2 where
    w2: "os_makedirs (?bd @ ''/hardware/src'') w1 = Inr w2" "dirs_added ?T w1 w2"
        "is_dir (fs w2) (B @ [''hardware'', ''src''])"
    unfolding c1 bp by auto
  have a2: "dirs_added ?T w w2" using w1(2) w2(2) by (rule dirs_added_trans)
  have c2: "cwd w2 = cwd w" using a2 by (simp add: dirs_added_def)
  from os_makedirs_spec [of w2 "?bd @ ''/hardware/simulation/src''" ?T]
    dirs_added_clear_way [OF a2 clear(2)] obtain w3 where
    w3: "os_makedirs (?bd @ ''/hardware/simulation/src'') w2 = Inr w3" "dirs_added ?T w2 w3"
        "is_dir (fs w3) (B @ [''hardware'', ''simulation'', ''src''])"
    unfolding c2 bp by auto
  have a3: "dirs_added ?T w w3" using a2 w3(2) by (rule dirs_added_trans)
  have c3: "cwd w3 = cwd w" using a3 by (simp add: dirs_added_def)
  from os_makedirs_spec [of w3 "?bd @ ''/hardware/fpga/src''" ?T]
    dirs_added_clear_way [OF a3 clear(3)] obtain w4 where
    w4: "os_makedirs (?bd @ ''/hardware/fpga/src'') w3 = Inr w4" "dirs_added ?T w3 w4"
        "is_dir (fs w4) (B @ [''hardware'', ''fpga'', ''src''])"
    unfolding c3 bp by auto
  have a4: "dirs_added ?T w w4" using a3 w4(2) by (rule dirs_added_trans)
  have c4: "cwd w4 = cwd w" using a4 by (simp add: dirs_added_def)
  from os_makedirs_spec [of w4 "?bd @ ''/doc''" ?T]
    dirs_added_clear_way [OF a4 cD] obtain w5 where
    w5: "os_makedirs (?bd @ ''/doc'') w4 = Inr w5" "dirs_added ?T w4 w5"
        "is_dir (fs w5) (B @ [''doc''])"
    unfolding c4 bp by auto
  have a5: "dirs_added ?T w w5" using a4 w5(2) by (rule dirs_added_trans)
  have c5: "cwd w5 = cwd w" using a5 by (simp add: dirs_added_def)
  from os_makedirs_spec [of w5 "?bd @ ''/doc/tsrc''" ?T]
    dirs_added_clear_way [OF a5 clear(4)] obtain w6 where
    w6: "os_makedirs (?bd @ ''/doc/tsrc'') w5 = Inr w6" "dirs_added ?T w5 w6"
        "is_dir (fs w6) (B @ [''doc'', ''tsrc''])"
    unfolding c5 bp by auto
  have a6: "dirs_added ?T w w6" using a5 w6(2) by (rule dirs_added_trans)
  have c6: "cwd w6 = cwd w" using a6 by (simp add: dirs_added_def)
  \<comment> \<open>the directories in \<open>w6\<close>\<close>
  have d6: "is_dir (fs w6) B" "is_dir (fs w6) (B @ [''hardware'', ''src''])"
    "is_dir (fs w6) (B @ [''hardware'', ''simulation'', ''src''])"
    "is_dir (fs w6) (B @ [''hardware'', ''fpga'', ''src''])"
    "is_dir (fs w6) (B @ [''doc''])" "is_dir (fs w6) (B @ [''doc'', ''tsrc''])"
    using w1(3) w2(3) w3(3) w4(3) w5(3) w6(3) w2(2) w3(2) w4(2) w5(2) w6(2)
    by (meson dirs_added_is_dir)+
  \<comment> \<open>the copy of the template\<close>
  have L6: "lookup (fs w6) ?L = Some (File mk)"
    using dirs_added_file [OF a6 mk] by (simp add: stat_file_lookup)
  have LM: "?L \<noteq> ?M"
  proof
    assume "?L = ?M"
    then have "last ?L = last ?M" by (rule arg_cong)
    then show False unfolding template_path by simp
  qed
  have M6: "\<not> is_dir (fs w6) ?M"
    by (rule dirs_added_not_dir [OF a6 nodir]) simp
  from write_node_spec [of ?M "fs w6" mk] d6(1) M6 obtain n7 where
    n7: "write_node (fs w6) ?M mk = Inr n7"
        "\<And>q. stat n7 q = (if q = ?M then Some (RegularFile mk) else stat (fs w6) q)"
    by auto
  let ?w7 = "w6\<lparr>fs := n7\<rparr>"
  have cp: "shutil_copyfile (lib_dir @ ''/build.mk'') (?bd @ ''/Makefile'') w6 = Inr ?w7"
    using L6 LM n7(1) by (simp add: shutil_copyfile_def Let_def c6 bp)
  have run: "create_build_dir col lib_dir self w = Inr ?w7"
    using top w1(1) w2(1) w3(1) w4(1) w5(1) w6(1) cp
    by (simp add: create_build_dir_def then_do_def)
  \<comment> \<open>the result\<close>
  have d7: "is_dir (fs ?w7) B" "is_dir (fs ?w7) (B @ [''hardware'', ''src''])"
    "is_dir (fs ?w7) (B @ [''hardware'', ''simulation'', ''src''])"
    "is_dir (fs ?w7) (B @ [''hardware'', ''fpga'', ''src''])"
    "is_dir (fs ?w7) (B @ [''doc''])" "is_dir (fs ?w7) (B @ [''doc'', ''tsrc''])"
    using d6 by (simp_all add: is_dir_stat n7(2))
  have m7: "stat (fs ?w7) ?M = Some (RegularFile mk)" by (simp add: n7(2))
  have L7: "lookup (fs ?w7) ?L = Some (File mk)"
    using L6 LM by (simp add: stat_file_lookup [symmetric] n7(2))
  \<comment> \<open>a second run\<close>
  have c7: "cwd ?w7 = cwd w" using c6 by simp
  have again: "os_makedirs p ?w7 = Inr ?w7" if "is_dir (fs ?w7) (abspath (cwd w) p)" for p
    using that os_makedirs_noop [of ?w7 p] unfolding c7 by simp
  have "write_node (fs ?w7) ?M mk = Inr (fs ?w7)"
    using m7 by (intro write_node_noop) (simp_all add: stat_file_lookup)
  then have cp2: "shutil_copyfile (lib_dir @ ''/build.mk'') (?bd @ ''/Makefile'') ?w7 = Inr ?w7"
    using L7 LM by (simp add: shutil_copyfile_def Let_def c6 bp)
  have run2: "create_build_dir col lib_dir self ?w7 = Inr ?w7"
    using top d7 cp2 again [of ?bd] again [of "?bd @ ''/hardware/src''"]
      again [of "?bd @ ''/hardware/simulation/src''"] again [of "?bd @ ''/hardware/fpga/src''"]
      again [of "?bd @ ''/doc''"] again [of "?bd @ ''/doc/tsrc''"]
    unfolding bp B_def [symmetric]
    by (simp add: create_build_dir_def then_do_def)
  from run d7 m7 run2 show ?thesis by blast
qed

theorem create_build_dir_layout_witness:
  "is_top_module example_core \<and> build_dir example_core \<noteq> []
   \<and> clear_way (fs example_fresh_world) [''work'', ''Foo_1.0'', ''build'', ''hardware'', ''src'']
   \<and> stat (fs example_fresh_world) [''lib'', ''build.mk''] = Some (RegularFile ''all:'')
   \<and> \<not> is_dir (fs example_fresh_world) [''work'', ''Foo_1.0'', ''build'', ''Makefile'']
   \<and> (\<exists>w'. create_build_dir example_colors ''/lib'' example_core example_fresh_world = Inr w'
         \<and> is_dir (fs w') [''work'', ''Foo_1.0'', ''build'', ''hardware'', ''src'']
         \<and> is_dir (fs w') [''work'', ''Foo_1.0'', ''build'', ''hardware'', ''simulation'', ''src'']
         \<and> is_dir (fs w') [''work'', ''Foo_1.0'', ''build'', ''hardware'', ''fpga'', ''src'']
         \<and> is_dir (fs w') [''work'', ''Foo_1.0'', ''build'', ''doc'']
         \<and> is_dir (fs w') [''work'', ''Foo_1.0'', ''build'', ''doc'', ''tsrc'']
         \<and> stat (fs w') [''work'', ''Foo_1.0'', ''build'', ''Makefile''] = Some (RegularFile ''all:'')
         \<and> create_build_dir example_colors ''/lib'' example_core w' = Inr w')"
proof -
  let ?w = example_fresh_world
  have B: "abspath (cwd ?w) (build_dir example_core) = [''work'', ''Foo_1.0'', ''build'']"
    by code_simp
  have L: "abspath (cwd ?w) (''/lib'' @ ''/build.mk'') = [''lib'', ''build.mk'']"
    by code_simp
  have 1: "is_top_module example_core" by code_simp
  have 2: "build_dir example_core \<noteq> []" by code_simp
  have 3: "clear_way (fs ?w) ([''work'', ''Foo_1.0'', ''build''] @ [''hardware'', ''src''])"
    "clear_way (fs ?w) ([''work'', ''Foo_1.0'', ''build''] @ [''hardware'', ''simulation'', ''src''])"
    "clear_way (fs ?w) ([''work'', ''Foo_1.0'', ''build''] @ [''hardware'', ''fpga'', ''src''])"
    "clear_way (fs ?w) ([''work'', ''Foo_1.0'', ''build''] @ [''doc'', ''tsrc''])"
    by code_simp+
  have 4: "stat (fs ?w) [''lib'', ''build.mk''] = Some (RegularFile ''all:'')" by code_simp
  have 5: "\<not> is_dir (fs ?w) ([''work'', ''Foo_1.0'', ''build''] @ [''Makefile''])" by code_simp
  from create_build_dir_layout [of example_core ?w "''/lib''" "''all:''" example_colors,
      unfolded B L, OF 1 2 3 4 5] 1 2 3(1) 4 5
  show ?thesis by simp
qed

text \<open>
  Claim C7, as amended. \<^verbatim>\<open>print_build_dir\<close> prints the path
  \<^verbatim>\<open>../<name>_<version>\<close>, leaves the file system and the working directory as they
  are, and leaves every attribute of the descriptor but \<^verbatim>\<open>build_dir\<close> as it is;
  \<^verbatim>\<open>build_dir\<close> is set to the printed path.
\<close>

theorem print_build_dir_effect:
  "fst (print_build_dir self w) = self\<lparr>build_dir := ''../'' @ name self @ ''_'' @ version self\<rparr>
   \<and> stdout (snd (print_build_dir self w)) = stdout w @ [''../'' @ name self @ ''_'' @ version self]
   \<and> fs (snd (print_build_dir self w)) = fs w
   \<and> cwd (snd (print_build_dir self w)) = cwd w"
  by (simp add: print_build_dir_def Let_def)

text \<open>
  Claim C7 as stated, that the report leaves \<^verbatim>\<open>build_dir\<close> unchanged, fails for the
  descriptor of a top-level core as its constructor leaves it: \<^verbatim>\<open>build_dir\<close> was
  \<^verbatim>\<open>../Foo_1.0/build\<close> and becomes \<^verbatim>\<open>../Foo_1.0\<close>.
\<close>

theorem print_build_dir_changes_build_dir:
  "build_dir (fst (print_build_dir example_core example_world)) \<noteq> build_dir example_core"
  by (simp add: print_build_dir_def Let_def example_core_def)

section \<open>The construction pipeline\<close>

lemma call_phase_None:
  "call_phase c f r = (None, st', tr') \<longleftrightarrow>
     (\<exists>st tr. r = (None, st, tr) \<and> f st = Inr st' \<and> tr' = tr @ [c])"
  by (auto simp: call_phase_def split: prod.splits option.splits sum.splits)

lemma call_phase_all:
  "Q c \<Longrightarrow> list_all Q (snd (snd r)) \<Longrightarrow> list_all Q (snd (snd (call_phase c f r)))"
  by (auto simp: call_phase_def split: prod.splits option.splits sum.splits)

lemma iob_core_init_descriptor:
  assumes "iob_core_init C a is_top purp topdir st = (Inr self, st', tr)"
  shows "\<exists>d. self = (default_attributes a is_top purp)
                \<lparr>build_dir := (if is_top
                               then ''../'' @ a_name a @ ''_''
                                      @ set_default_attribute (a_version a) ''1.0'' @ ''/build''
                               else topdir),
                 setup_dir := d\<rparr>"
  using assms
  by (auto simp: iob_core_init_def Let_def default_attributes_def
           split: sum.splits prod.splits option.splits)

lemma sub_core_trace:
  fixes C :: "('x, 'g, 't) collaborators" and tr :: "('g, 't) call list"
  assumes "iob_core_init C a False purp topdir st = (res, st', tr)"
  shows "list_all (\<lambda>c. \<not> top_only c) tr"
proof -
  let ?Q = "\<lambda>c :: ('g, 't) call. \<not> top_only c"
  have Q: "?Q Call_find_module_setup_dir" "?Q Call_copy_rename_setup_directory"
    "?Q Call_config_build_mk" "?Q Call_generate_confs" "?Q Call_generate_params"
    "?Q Call_generate_ports" "?Q Call_generate_csr" "\<And>g t. ?Q (Returned_generate_csr g t)"
    by simp_all
  show ?thesis
  proof (cases "find_module_setup_dir (colors C)
                  ((default_attributes a False purp)\<lparr>build_dir := topdir\<rparr>)
                  (os_getcwd (fst st)) (fst st)")
    case (Inl e)
    with assms Q(1) show ?thesis by (auto simp: iob_core_init_def Let_def)
  next
    case (Inr d)
    let ?self = "(default_attributes a False purp)\<lparr>build_dir := topdir, setup_dir := d\<rparr>"
    let ?r8 = "call_phase Call_generate_ports (generate_ports C ?self)
                (call_phase Call_generate_params (generate_params C ?self)
                  (call_phase Call_generate_confs (generate_confs C ?self)
                    (call_phase Call_config_build_mk (config_build_mk C ?self)
                      (call_phase Call_copy_rename_setup_directory
                         (copy_rename_setup_directory C ?self)
                         (None, st, [Call_find_module_setup_dir :: ('g, 't) call])))))"
    have r8: "list_all ?Q (snd (snd ?r8))"
      by (intro call_phase_all Q) (simp add: Q)
    obtain x8 st8 tr8 where x8: "?r8 = (x8, st8, tr8)" using prod_cases3 by blast
    with r8 have tr8: "list_all ?Q tr8" by simp
    from assms Inr x8 tr8 Q(7,8) show ?thesis
      by (auto simp: iob_core_init_def Let_def split: option.splits sum.splits)
  qed
qed

lemma sub_core_run:
  fixes C :: "('x, 'g, 't) collaborators" and tr :: "('g, 't) call list"
  assumes "iob_core_init C a False purp topdir st = (Inr self, st', tr)"
  shows "\<exists>d s1 s2 s3 s4 s5 g t.
           find_module_setup_dir (colors C) (unresolved_core a False purp topdir)
             (os_getcwd (fst st)) (fst st) = Inr d
         \<and> self = (unresolved_core a False purp topdir)\<lparr>setup_dir := d\<rparr>
         \<and> copy_rename_setup_directory C self st = Inr s1
         \<and> config_build_mk C self s1 = Inr s2
         \<and> generate_confs C self s2 = Inr s3
         \<and> generate_params C self s3 = Inr s4
         \<and> generate_ports C self s4 = Inr s5
         \<and> generate_csr C self s5 = Inr ((g, t), st')
         \<and> tr = [Call_find_module_setup_dir, Call_copy_rename_setup_directory,
                  Call_config_build_mk, Call_generate_confs, Call_generate_params,
                  Call_generate_ports, Call_generate_csr, Returned_generate_csr g t]"
  using assms
  by (auto simp: iob_core_init_def unresolved_core_def Let_def call_phase_None
           split: sum.splits prod.splits option.splits)

lemma sub_core_state:
  fixes C :: "('x, 'g, 't) collaborators" and tr :: "('g, 't) call list"
  assumes "iob_core_init C a False purp topdir st = (res, st', tr)"
  shows "(\<forall>e. find_module_setup_dir (colors C) (unresolved_core a False purp topdir)
               (os_getcwd (fst st)) (fst st) = Inl e \<longrightarrow> res = Inl e \<and> st' = st)
       \<and> (\<forall>d. find_module_setup_dir (colors C) (unresolved_core a False purp topdir)
               (os_getcwd (fst st)) (fst st) = Inr d \<longrightarrow>
               st' = run_phases
                       (sub_core_phases C ((unresolved_core a False purp topdir)\<lparr>setup_dir := d\<rparr>))
                       st)"
  using assms
  by (auto simp: iob_core_init_def unresolved_core_def Let_def call_phase_def
                 sub_core_phases_def csr_phase_def
           split: sum.splits prod.splits option.splits)

lemma top_core_run:
  fixes C :: "('x, 'g, 't) collaborators" and tr :: "('g, 't) call list"
  assumes "iob_core_init C a True purp topdir st = (Inr self, st', tr)"
  shows "\<exists>d s1 s2 s3 s4 s5 s6 s7 s8 s9 s10 g t.
           find_module_setup_dir (colors C) (unresolved_core a True purp topdir)
             (os_getcwd (fst st)) (fst st) = Inr d
         \<and> self = (unresolved_core a True purp topdir)\<lparr>setup_dir := d\<rparr>
         \<and> on_world (create_build_dir (colors C) (get_lib_dir C) self) st = Inr s1
         \<and> flows_setup C self s1 = Inr s2
         \<and> copy_rename_setup_directory C self s2 = Inr s3
         \<and> config_build_mk C self s3 = Inr s4
         \<and> generate_confs C self s4 = Inr s5
         \<and> generate_params C self s5 = Inr s6
         \<and> generate_ports C self s6 = Inr s7
         \<and> generate_csr C self s7 = Inr ((g, t), s8)
         \<and> replace_includes C (setup_dir self) (build_dir self) (ignore_snippets self) s8 = Inr s9
         \<and> on_world (remove_duplicate_sources self) s9 = Inr s10
         \<and> generate_docs C self g t s10 = Inr st'
         \<and> tr = [Call_find_module_setup_dir, Call_create_build_dir, Call_flows_setup,
                  Call_copy_rename_setup_directory, Call_config_build_mk,
                  Call_generate_confs, Call_generate_params, Call_generate_ports,
                  Call_generate_csr, Returned_generate_csr g t,
                  Call_replace_snippet_includes, Call_remove_duplicate_sources,
                  Call_generate_docs g t]"
  using assms
  by (auto simp: iob_core_init_def unresolved_core_def Let_def call_phase_None
           split: sum.splits prod.splits option.splits)

text \<open>
  Claim C2. A descriptor constructed with \<^verbatim>\<open>is_top\<close> false never calls the creation of
  the build tree, the flow setup, the resolution of snippet includes, the deduplication or
  the documentation generator, whether its construction succeeds or raises: the state it
  leaves is the state that the source copy-in and the five generation phases alone
  produce, each from the state of the one before, up to the first that raises (and the
  state it was given when the setup directory is not found). When it succeeds, each of
  these six has returned, in this order. A descriptor constructed with \<^verbatim>\<open>is_top\<close> true that
  is constructed successfully has run, each on the state the one before returned, the
  creation of the build tree, the flow setup, the source copy-in, the five generation
  phases and then the resolution of snippet includes, the deduplication and the
  documentation generator; the documentation generator has received the two values that
  the register generator returned, and the state it returned is the state left behind.
\<close>

theorem constructor_phases:
  fixes C :: "('x, 'g, 't) collaborators" and tr tr' :: "('g, 't) call list"
  shows
  "(iob_core_init C a False purp topdir st = (res, st', tr) \<longrightarrow>
      Call_create_build_dir \<notin> set tr \<and> Call_flows_setup \<notin> set tr
      \<and> Call_replace_snippet_includes \<notin> set tr \<and> Call_remove_duplicate_sources \<notin> set tr
      \<and> (\<forall>g t. Call_generate_docs g t \<notin> set tr)
      \<and> (\<forall>e. find_module_setup_dir (colors C) (unresolved_core a False purp topdir)
                 (os_getcwd (fst st)) (fst st) = Inl e \<longrightarrow> res = Inl e \<and> st' = st)
      \<and> (\<forall>d. find_module_setup_dir (colors C) (unresolved_core a False purp topdir)
                 (os_getcwd (fst st)) (fst st) = Inr d \<longrightarrow>
                 st' = run_phases
                         (sub_core_phases C
                            ((unresolved_core a False purp topdir)\<lparr>setup_dir := d\<rparr>))
                         st)
      \<and> (\<forall>self. res = Inr self \<longrightarrow>
            (\<exists>d s1 s2 s3 s4 s5 g t.
               find_module_setup_dir (colors C) (unresolved_core a False purp topdir)
                 (os_getcwd (fst st)) (fst st) = Inr d
             \<and> self = (unresolved_core a False purp topdir)\<lparr>setup_dir := d\<rparr>
             \<and> copy_rename_setup_directory C self st = Inr s1
             \<and> config_build_mk C self s1 = Inr s2
             \<and> generate_confs C self s2 = Inr s3
             \<and> generate_params C self s3 = Inr s4
             \<and> generate_ports C self s4 = Inr s5
             \<and> generate_csr C self s5 = Inr ((g, t), st')
             \<and> tr = [Call_find_module_setup_dir, Call_copy_rename_setup_directory,
                      Call_config_build_mk, Call_generate_confs, Call_generate_params,
                      Call_generate_ports, Call_generate_csr, Returned_generate_csr g t])))
   \<and> (iob_core_init C a True purp topdir st = (Inr self', st'', tr') \<longrightarrow>
        (\<exists>d s1 s2 s3 s4 s5 s6 s7 s8 s9 s10 g t.
           find_module_setup_dir (colors C) (unresolved_core a True purp topdir)
             (os_getcwd (fst st)) (fst st) = Inr d
         \<and> self' = (unresolved_core a True purp topdir)\<lparr>setup_dir := d\<rparr>
         \<and> on_world (create_build_dir (colors C) (get_lib_dir C) self') st = Inr s1
         \<and> flows_setup C self' s1 = Inr s2
         \<and> copy_rename_setup_directory C self' s2 = Inr s3
         \<and> config_build_mk C self' s3 = Inr s4
         \<and> generate_confs C self' s4 = Inr s5
         \<and> generate_params C self' s5 = Inr s6
         \<and> generate_ports C self' s6 = Inr s7
         \<and> generate_csr C self' s7 = Inr ((g, t), s8)
         \<and> replace_includes C (setup_dir self') (build_dir self') (ignore_snippets self') s8
             = Inr s9
         \<and> on_world (remove_duplicate_sources self') s9 = Inr s10
         \<and> generate_docs C self' g t s10 = Inr st''
         \<and> tr' = [Call_find_module_setup_dir, Call_create_build_dir, Call_flows_setup,
                   Call_copy_rename_setup_directory, Call_config_build_mk,
                   Call_generate_confs, Call_generate_params, Call_generate_ports,
                   Call_generate_csr, Returned_generate_csr g t,
                   Call_replace_snippet_includes, Call_remove_duplicate_sources,
                   Call_generate_docs g t]))"
proof (intro conjI impI)
  assume sub: "iob_core_init C a False purp topdir st = (res, st', tr)"
  from sub_core_trace [OF sub] have n: "\<forall>c\<in>set tr. \<not> top_only c"
    by (simp add: list_all_iff)
  from n show "Call_create_build_dir \<notin> set tr" by force
  from n show "Call_flows_setup \<notin> set tr" by force
  from n show "Call_replace_snippet_includes \<notin> set tr" by force
  from n show "Call_remove_duplicate_sources \<notin> set tr" by force
  from n show "\<forall>g t. Call_generate_docs g t \<notin> set tr" by force
  from sub_core_state [OF sub]
  show "\<forall>e. find_module_setup_dir (colors C) (unresolved_core a False purp topdir)
                 (os_getcwd (fst st)) (fst st) = Inl e \<longrightarrow> res = Inl e \<and> st' = st"
    by (rule conjunct1)
  from sub_core_state [OF sub]
  show "\<forall>d. find_module_setup_dir (colors C) (unresolved_core a False purp topdir)
                 (os_getcwd (fst st)) (fst st) = Inr d \<longrightarrow>
                 st' = run_phases
                         (sub_core_phases C
                            ((unresolved_core a False purp topdir)\<lparr>setup_dir := d\<rparr>))
                         st"
    by (rule conjunct2)
  show "\<forall>self. res = Inr self \<longrightarrow>
            (\<exists>d s1 s2 s3 s4 s5 g t.
               find_module_setup_dir (colors C) (unresolved_core a False purp topdir)
                 (os_getcwd (fst st)) (fst st) = Inr d
             \<and> self = (unresolved_core a False purp topdir)\<lparr>setup_dir := d\<rparr>
             \<and> copy_rename_setup_directory C self st = Inr s1
             \<and> config_build_mk C self s1 = Inr s2
             \<and> generate_confs C self s2 = Inr s3
             \<and> generate_params C self s3 = Inr s4
             \<and> generate_ports C self s4 = Inr s5
             \<and> generate_csr C self s5 = Inr ((g, t), st')
             \<and> tr = [Call_find_module_setup_dir, Call_copy_rename_setup_directory,
                      Call_config_build_mk, Call_generate_confs, Call_generate_params,
                      Call_generate_ports, Call_generate_csr, Returned_generate_csr g t])"
  proof (intro allI impI)
    fix self assume "res = Inr self"
    with sub have "iob_core_init C a False purp topdir st = (Inr self, st', tr)" by simp
    then show "\<exists>d s1 s2 s3 s4 s5 g t.
               find_module_setup_dir (colors C) (unresolved_core a False purp topdir)
                 (os_getcwd (fst st)) (fst st) = Inr d
             \<and> self = (unresolved_core a False purp topdir)\<lparr>setup_dir := d\<rparr>
             \<and> copy_rename_setup_directory C self st = Inr s1
             \<and> config_build_mk C self s1 = Inr s2
             \<and> generate_confs C self s2 = Inr s3
             \<and> generate_params C self s3 = Inr s4
             \<and> generate_ports C self s4 = Inr s5
             \<and> generate_csr C self s5 = Inr ((g, t), st')
             \<and> tr = [Call_find_module_setup_dir, Call_copy_rename_setup_directory,
                      Call_config_build_mk, Call_generate_confs, Call_generate_params,
                      Call_generate_ports, Call_generate_csr, Returned_generate_csr g t]"
      by (rule sub_core_run)
  qed
next
  assume "iob_core_init C a True purp topdir st = (Inr self', st'', tr')"
  then show "\<exists>d s1 s2 s3 s4 s5 s6 s7 s8 s9 s10 g t.
           find_module_setup_dir (colors C) (unresolved_core a True purp topdir)
             (os_getcwd (fst st)) (fst st) = Inr d
         \<and> self' = (unresolved_core a True purp topdir)\<lparr>setup_dir := d\<rparr>
         \<and> on_world (create_build_dir (colors C) (get_lib_dir C) self') st = Inr s1
         \<and> flows_setup C self' s1 = Inr s2
         \<and> copy_rename_setup_directory C self' s2 = Inr s3
         \<and> config_build_mk C self' s3 = Inr s4
         \<and> generate_confs C self' s4 = Inr s5
         \<and> generate_params C self' s5 = Inr s6
         \<and> generate_ports C self' s6 = Inr s7
         \<and> generate_csr C self' s7 = Inr ((g, t), s8)
         \<and> replace_includes C (setup_dir self') (build_dir self') (ignore_snippets self') s8
             = Inr s9
         \<and> on_world (remove_duplicate_sources self') s9 = Inr s10
         \<and> generate_docs C self' g t s10 = Inr st''
         \<and> tr' = [Call_find_module_setup_dir, Call_create_build_dir, Call_flows_setup,
                   Call_copy_rename_setup_directory, Call_config_build_mk,
                   Call_generate_confs, Call_generate_params, Call_generate_ports,
                   Call_generate_csr, Returned_generate_csr g t,
                   Call_replace_snippet_includes, Call_remove_duplicate_sources,
                   Call_generate_docs g t]"
    by (rule top_core_run)
qed

theorem constructor_phases_witness:
  "fst (iob_core_init example_logging_collaborators (example_attrs ''Foo'') False ''hardware''
          ''../Foo_1.0/build'' (example_world, [])) = Inr example_foo_sub_core
   \<and> fst (snd (iob_core_init example_logging_collaborators (example_attrs ''Foo'') False
                 ''hardware'' ''../Foo_1.0/build'' (example_world, [])))
       = run_phases (sub_core_phases example_logging_collaborators example_foo_sub_core)
           (example_world, [])
   \<and> snd (run_phases (sub_core_phases example_logging_collaborators example_foo_sub_core)
            (example_world, []))
       = [''copy_rename_setup_directory'', ''config_build_mk'', ''generate_confs'',
          ''generate_params'', ''generate_ports'', ''generate_csr'']
   \<and> is_file (fs (fst (run_phases
                          (sub_core_phases example_logging_collaborators example_foo_sub_core)
                          (example_world, []))))
        [''work'', ''Foo_1.0'', ''build'', ''hardware'', ''simulation'', ''src'', ''Foo.py'']
   \<and> fst (iob_core_init example_logging_collaborators (example_attrs ''Foo'') True ''hardware''
            ''.'' (example_fresh_world, [])) = Inr example_core
   \<and> snd (fst (snd (iob_core_init example_logging_collaborators (example_attrs ''Foo'') True
                      ''hardware'' ''.'' (example_fresh_world, []))))
       = [''flows_setup'', ''copy_rename_setup_directory'', ''config_build_mk'',
          ''generate_confs'', ''generate_params'', ''generate_ports'', ''generate_csr'',
          ''replace_includes ../Foo_1.0/build'', ''generate_docs csr of Foo, regs of Foo'']
   \<and> is_file (fs (fst (fst (snd (iob_core_init example_logging_collaborators
                                   (example_attrs ''Foo'') True ''hardware'' ''.''
                                   (example_fresh_world, []))))))
        [''work'', ''Foo_1.0'', ''build'', ''hardware'', ''src'', ''Foo.py'']
   \<and> \<not> is_file (fs (fst (fst (snd (iob_core_init example_logging_collaborators
                                     (example_attrs ''Foo'') True ''hardware'' ''.''
                                     (example_fresh_world, []))))))
          [''work'', ''Foo_1.0'', ''build'', ''hardware'', ''simulation'', ''src'', ''Foo.py'']
   \<and> (\<exists>s9 s10 g t.
         on_world (remove_duplicate_sources example_core) s9 = Inr s10
       \<and> generate_docs example_logging_collaborators example_core g t s10
           = Inr (fst (snd (iob_core_init example_logging_collaborators (example_attrs ''Foo'')
                              True ''hardware'' ''.'' (example_fresh_world, []))))
       \<and> snd (snd (iob_core_init example_logging_collaborators (example_attrs ''Foo'') True
                      ''hardware'' ''.'' (example_fresh_world, [])))
           = [Call_find_module_setup_dir, Call_create_build_dir, Call_flows_setup,
              Call_copy_rename_setup_directory, Call_config_build_mk,
              Call_generate_confs, Call_generate_params, Call_generate_ports,
              Call_generate_csr, Returned_generate_csr g t,
              Call_replace_snippet_includes, Call_remove_duplicate_sources,
              Call_generate_docs g t])"
proof -
  let ?C = example_logging_collaborators
  let ?X = "iob_core_init ?C (example_attrs ''Foo'') True ''hardware'' ''.''
              (example_fresh_world, [])"
  let ?Y = "iob_core_init ?C (example_attrs ''Foo'') False ''hardware''
              ''../Foo_1.0/build'' (example_world, [])"
  let ?R = "run_phases (sub_core_phases ?C example_foo_sub_core) (example_world, [])"
  have T: "fst ?X = Inr example_core" by code_simp
  have S: "fst ?Y = Inr example_foo_sub_core" by code_simp
  have X: "?X = (Inr example_core, fst (snd ?X), snd (snd ?X))"
    using T by (metis prod.collapse)
  have Y: "?Y = (Inr example_foo_sub_core, fst (snd ?Y), snd (snd ?Y))"
    using S by (metis prod.collapse)
  have F: "find_module_setup_dir (colors ?C)
             (unresolved_core (example_attrs ''Foo'') False ''hardware'' ''../Foo_1.0/build'')
             (os_getcwd (fst (example_world, []))) (fst (example_world, [])) = Inr ''/work/core''"
    by code_simp
  have E: "(unresolved_core (example_attrs ''Foo'') False ''hardware'' ''../Foo_1.0/build'')
             \<lparr>setup_dir := ''/work/core''\<rparr> = example_foo_sub_core"
    by code_simp
  from constructor_phases [where C = ?C and a = "example_attrs ''Foo''"
      and purp = "''hardware''" and topdir = "''../Foo_1.0/build''"
      and st = "(example_world, [])" and res = "Inr example_foo_sub_core"
      and st' = "fst (snd ?Y)" and tr = "snd (snd ?Y)"] Y F
  have 1: "fst (snd ?Y) = ?R" unfolding E [symmetric] by blast
  have 2: "snd ?R = [''copy_rename_setup_directory'', ''config_build_mk'', ''generate_confs'',
                     ''generate_params'', ''generate_ports'', ''generate_csr'']"
    by code_simp
  have 3: "is_file (fs (fst ?R))
             [''work'', ''Foo_1.0'', ''build'', ''hardware'', ''simulation'', ''src'', ''Foo.py'']"
    by code_simp
  have 4: "snd (fst (snd ?X))
       = [''flows_setup'', ''copy_rename_setup_directory'', ''config_build_mk'',
          ''generate_confs'', ''generate_params'', ''generate_ports'', ''generate_csr'',
          ''replace_includes ../Foo_1.0/build'', ''generate_docs csr of Foo, regs of Foo'']"
    by code_simp
  have 5: "is_file (fs (fst (fst (snd ?X))))
             [''work'', ''Foo_1.0'', ''build'', ''hardware'', ''src'', ''Foo.py'']"
    by code_simp
  have 6: "\<not> is_file (fs (fst (fst (snd ?X))))
             [''work'', ''Foo_1.0'', ''build'', ''hardware'', ''simulation'', ''src'', ''Foo.py'']"
    by code_simp
  from constructor_phases [where C = ?C and a = "example_attrs ''Foo''"
      and purp = "''hardware''" and topdir = "''.''"
      and st = "(example_fresh_world, [])" and self' = example_core
      and st'' = "fst (snd ?X)" and tr' = "snd (snd ?X)"] X
  have 7: "\<exists>s9 s10 g t.
         on_world (remove_duplicate_sources example_core) s9 = Inr s10
       \<and> generate_docs ?C example_core g t s10 = Inr (fst (snd ?X))
       \<and> snd (snd ?X)
           = [Call_find_module_setup_dir, Call_create_build_dir, Call_flows_setup,
              Call_copy_rename_setup_directory, Call_config_build_mk,
              Call_generate_confs, Call_generate_params, Call_generate_ports,
              Call_generate_csr, Returned_generate_csr g t,
              Call_replace_snippet_includes, Call_remove_duplicate_sources,
              Call_generate_docs g t]"
    by blast
  from S 1 2 3 T 4 5 6 7 show ?thesis by (intro conjI)
qed

text \<open>
  Claim C4. The build directory of a top-level core is \<^verbatim>\<open>../<name>_<version>/build\<close>,
  whatever the arguments and presets of the constructor; a sub-core created by
  \<^verbatim>\<open>create_instance\<close> carries the build directory of its parent, unchanged by its own
  construction.
\<close>

theorem build_dir_shared:
  "(iob_core_init C a True purp topdir st = (Inr top_core, st', tr) \<longrightarrow>
      build_dir top_core = ''../'' @ name top_core @ ''_'' @ version top_core @ ''/build'')
   \<and> (create_instance C parent a' st_sub = (Inr sub_core, st_sub', tr_sub) \<longrightarrow>
        build_dir sub_core = build_dir parent)"
proof (intro conjI impI)
  assume "iob_core_init C a True purp topdir st = (Inr top_core, st', tr)"
  from iob_core_init_descriptor [OF this]
  show "build_dir top_core = ''../'' @ name top_core @ ''_'' @ version top_core @ ''/build''"
    by (auto simp: default_attributes_def Let_def)
next
  assume "create_instance C parent a' st_sub = (Inr sub_core, st_sub', tr_sub)"
  then have "iob_core_init C a' False ''hardware'' (build_dir parent) st_sub = (Inr sub_core, st_sub', tr_sub)"
    by (simp add: create_instance_def)
  from iob_core_init_descriptor [OF this]
  show "build_dir sub_core = build_dir parent" by auto
qed

theorem build_dir_shared_witness:
  "fst (iob_core_init example_collaborators (example_attrs ''Foo'') True ''hardware'' ''.''
          (example_fresh_world, ())) = Inr example_core
   \<and> fst (create_instance example_collaborators example_core (example_attrs ''iob_reg'')
            (example_fresh_world, ())) = Inr example_sub_core
   \<and> build_dir example_core = ''../Foo_1.0/build''
   \<and> build_dir example_sub_core = build_dir example_core"
proof -
  let ?X = "iob_core_init example_collaborators (example_attrs ''Foo'') True ''hardware'' ''.''
              (example_fresh_world, ())"
  let ?Y = "create_instance example_collaborators example_core (example_attrs ''iob_reg'')
              (example_fresh_world, ())"
  have T: "fst ?X = Inr example_core" by code_simp
  have S: "fst ?Y = Inr example_sub_core" by code_simp
  have X: "?X = (Inr example_core, fst (snd ?X), snd (snd ?X))"
    using T by (metis prod.collapse)
  have Y: "?Y = (Inr example_sub_core, fst (snd ?Y), snd (snd ?Y))"
    using S by (metis prod.collapse)
  from build_dir_shared [where C = example_collaborators and a = "example_attrs ''Foo''"
      and purp = "''hardware''" and topdir = "''.''" and st = "(example_fresh_world, ())"
      and top_core = example_core and st' = "fst (snd ?X)" and tr = "snd (snd ?X)"
      and parent = example_core and a' = "example_attrs ''iob_reg''"
      and st_sub = "(example_fresh_world, ())" and sub_core = example_sub_core
      and st_sub' = "fst (snd ?Y)" and tr_sub = "snd (snd ?Y)"] X Y
  have "build_dir example_core = ''../'' @ name example_core @ ''_'' @ version example_core @ ''/build''"
    "build_dir example_sub_core = build_dir example_core"
    by blast+
  with T S show ?thesis by (simp add: example_core_def)
qed

end
